theory Spec2Isabelle
  imports Main "HOL-Library.Word"
begin

section \<open>Trackscreen: the sidekey / batched-report event translator\<close>

text \<open>
  This theory embeds the event translation engine of the trackscreen utility, in the
  variant that owns a fake keyboard (the sidekey) and batches one report's events in
  a fixed array before writing them to the synthetic trackpad.

  Conventions of the embedding.
  \<^item> A C \<open>int\<close> or \<open>int32_t\<close> is an \<open>int\<close>. Signed overflow is undefined in C; the
    theorem on the geometry, where the screen extent is multiplied by a percentage,
    carries the 32-bit range of that product as an explicit hypothesis (\<open>c_int\<close>).
  \<^item> \<open>unsigned int\<close> is a \<open>32 word\<close>, \<open>uint16_t\<close> a \<open>16 word\<close>; the conversion of a
    signed value to an unsigned field is \<open>word_of_int\<close>.
  \<^item> Division is C's: it truncates towards zero (\<open>c_div\<close>).
  \<^item> The \<open>write\<close> calls on the trackpad and keyboard descriptors are logged in two
    fields added to the context, one list entry per call, holding the events of that
    call. Return values of \<open>write\<close> are ignored by the source, and by the model.
  \<^item> The \<open>time\<close> field of an event is never read or set by the translator and is
    left out, as is the output of the verbose flag.
\<close>

type_synonym u16 = "16 word"
type_synonym u32 = "32 word"

subsection \<open>Event records and the Linux event codes the source names\<close>

record input_event =
  ev_type :: u16
  ev_code :: u16
  ev_value :: int

text \<open>
  The numeric values below are those of \<open>linux/input-event-codes.h\<close>, which the
  source includes.
\<close>

definition EV_SYN :: u16 where "EV_SYN = 0x00"
definition EV_KEY :: u16 where "EV_KEY = 0x01"
definition EV_ABS :: u16 where "EV_ABS = 0x03"
definition SYN_REPORT :: u16 where "SYN_REPORT = 0"
definition ABS_X :: u16 where "ABS_X = 0x00"
definition ABS_Y :: u16 where "ABS_Y = 0x01"
definition ABS_MT_SLOT :: u16 where "ABS_MT_SLOT = 0x2f"
definition ABS_MT_POSITION_X :: u16 where "ABS_MT_POSITION_X = 0x35"
definition ABS_MT_POSITION_Y :: u16 where "ABS_MT_POSITION_Y = 0x36"
definition ABS_MT_TRACKING_ID :: u16 where "ABS_MT_TRACKING_ID = 0x39"
definition BTN_TOOL_FINGER :: u16 where "BTN_TOOL_FINGER = 0x145"
definition BTN_TOOL_QUINTTAP :: u16 where "BTN_TOOL_QUINTTAP = 0x148"
definition BTN_TOOL_DOUBLETAP :: u16 where "BTN_TOOL_DOUBLETAP = 0x14d"
definition BTN_TOOL_TRIPLETAP :: u16 where "BTN_TOOL_TRIPLETAP = 0x14e"
definition BTN_TOOL_QUADTAP :: u16 where "BTN_TOOL_QUADTAP = 0x14f"

definition MAX_FINGERS :: nat where "MAX_FINGERS = 10"
definition MAX_EVENTS_PER_REPORT :: int where "MAX_EVENTS_PER_REPORT = 24"

subsection \<open>The context\<close>

text \<open>
  The fields of \<open>struct trackscreen_context\<close> that the translator reads or writes,
  under their own names; \<open>tp_out\<close> and \<open>kbd_out\<close> log the writes to \<open>ctx->tp\<close> and
  \<open>ctx->kbd\<close>.
\<close>

record trackscreen_context =
  kbd :: int
  keycode :: int
  ts_min_x :: int
  ts_min_y :: int
  ts_max_x :: int
  ts_max_y :: int
  tp_left_percent :: int
  tp_top_percent :: int
  tp_width_percent :: int
  tp_height_percent :: int
  tp_min_x :: int
  tp_min_y :: int
  tp_max_x :: int
  tp_max_y :: int
  finger_count :: int
  fingers :: "int list"
  slot :: u32
  input_event :: "input_event list"
  input_events :: int
  pos_x :: int
  pos_y :: int
  sidekey :: u32
  tp_out :: "input_event list list"
  kbd_out :: "input_event list list"

text \<open>
  The two arrays have their declared sizes and the event counter stays inside its
  array. \<open>queued\<close> is the valid prefix of the event array: the pending report.
\<close>

definition wf_context :: "trackscreen_context \<Rightarrow> bool" where
  "wf_context ctx =
     (length (fingers ctx) = MAX_FINGERS \<and>
      int (length (input_event ctx)) = MAX_EVENTS_PER_REPORT \<and>
      0 \<le> input_events ctx \<and> input_events ctx \<le> MAX_EVENTS_PER_REPORT)"

definition queued :: "trackscreen_context \<Rightarrow> input_event list" where
  "queued ctx = take (nat (input_events ctx)) (input_event ctx)"

text \<open>
  The context as \<open>main\<close> sets it up before any option is read: everything zero, the
  descriptors and the key code at \<open>-1\<close>, the default percentages, every slot empty.
\<close>

definition initial_context :: trackscreen_context where
  "initial_context =
     \<lparr> kbd = -1, keycode = -1,
       ts_min_x = 0, ts_min_y = 0, ts_max_x = 0, ts_max_y = 0,
       tp_left_percent = 33, tp_top_percent = 67,
       tp_width_percent = 33, tp_height_percent = 33,
       tp_min_x = 0, tp_min_y = 0, tp_max_x = 0, tp_max_y = 0,
       finger_count = 0,
       fingers = replicate MAX_FINGERS (-1),
       slot = 0,
       input_event =
         replicate (nat MAX_EVENTS_PER_REPORT) \<lparr>ev_type = 0, ev_code = 0, ev_value = 0\<rparr>,
       input_events = 0,
       pos_x = 0, pos_y = 0,
       sidekey = 0,
       tp_out = [], kbd_out = [] \<rparr>"

subsection \<open>Geometry\<close>

definition c_div :: "int \<Rightarrow> int \<Rightarrow> int" where
  "c_div a b = sgn a * sgn b * (\<bar>a\<bar> div \<bar>b\<bar>)"

definition c_int :: "int \<Rightarrow> bool" where
  "c_int v = (- 2147483648 \<le> v \<and> v \<le> 2147483647)"

definition compute_trackpad_bounds :: "trackscreen_context \<Rightarrow> trackscreen_context" where
  "compute_trackpad_bounds ctx =
     (let height = ts_max_y ctx - ts_min_y ctx;
          width = ts_max_x ctx - ts_min_x ctx;
          c1 = ctx\<lparr>tp_min_x := ts_min_x ctx + c_div (width * tp_left_percent ctx) 100\<rparr>;
          c2 = c1\<lparr>tp_max_x := tp_min_x c1 + c_div (width * tp_width_percent c1) 100\<rparr>;
          c3 = c2\<lparr>tp_min_y := ts_min_y c2 + c_div (height * tp_top_percent c2) 100\<rparr>
      in c3\<lparr>tp_max_y := tp_min_y c3 + c_div (height * tp_height_percent c3) 100\<rparr>)"

text \<open>
  \<open>read_trackpad_dimensions\<close> scans four integers with \<open>sscanf\<close> and validates them.
  The scan itself is libc's; the model takes what it scanned, in order, as a list
  (\<open>sscanf\<close> stores the items it converted and returns their number; a return of
  \<open>EOF\<close> stores nothing and is the empty list here). The result pairs the status
  with the context, whose percentage fields hold whatever was stored.
\<close>

definition sscanf_store :: "trackscreen_context \<Rightarrow> int list \<Rightarrow> trackscreen_context" where
  "sscanf_store ctx scanned =
     (let c1 = (if 0 < length scanned then ctx\<lparr>tp_left_percent := scanned ! 0\<rparr> else ctx);
          c2 = (if 1 < length scanned then c1\<lparr>tp_top_percent := scanned ! 1\<rparr> else c1);
          c3 = (if 2 < length scanned then c2\<lparr>tp_width_percent := scanned ! 2\<rparr> else c2)
      in (if 3 < length scanned then c3\<lparr>tp_height_percent := scanned ! 3\<rparr> else c3))"

definition read_trackpad_dimensions ::
  "trackscreen_context \<Rightarrow> int list \<Rightarrow> int \<times> trackscreen_context" where
  "read_trackpad_dimensions ctx scanned =
     (let items = int (min (length scanned) 4);
          c = sscanf_store ctx scanned
      in if items \<noteq> 4 then (- 1, c)
         else if tp_left_percent c < 0 \<or> tp_left_percent c \<ge> 100 \<or>
                 tp_top_percent c < 0 \<or> tp_top_percent c \<ge> 100 then (- 1, c)
         else if tp_width_percent c \<le> 0 \<or> tp_width_percent c > 100 \<or>
                 tp_left_percent c + tp_width_percent c > 100 \<or>
                 tp_height_percent c \<le> 0 \<or> tp_height_percent c > 100 \<or>
                 tp_top_percent c + tp_height_percent c > 100 then (- 1, c)
         else (0, c))"

text \<open>
  The \<open>-d\<close> case of \<open>main\<close>'s option loop: a non-zero status makes \<open>main\<close> return 1 at
  once (\<open>Inl 1\<close>), before the touchscreen is opened and before
  \<open>compute_trackpad_bounds\<close> is reached; otherwise the loop goes on with the context.
\<close>

definition main_option_d :: "trackscreen_context \<Rightarrow> int list \<Rightarrow> int + trackscreen_context" where
  "main_option_d ctx scanned =
     (let (status, c) = read_trackpad_dimensions ctx scanned
      in if status \<noteq> 0 then Inl 1 else Inr c)"

subsection \<open>The pending report\<close>

definition queue_tp_event ::
  "trackscreen_context \<Rightarrow> u16 \<Rightarrow> u16 \<Rightarrow> int \<Rightarrow> trackscreen_context" where
  "queue_tp_event ctx ty code val =
     (if input_events ctx \<ge> MAX_EVENTS_PER_REPORT then ctx
      else ctx\<lparr>input_event :=
                  (input_event ctx)[nat (input_events ctx) :=
                     \<lparr>ev_type = ty, ev_code = code, ev_value = val\<rparr>],
                input_events := input_events ctx + 1\<rparr>)"

definition flush_tp_events :: "trackscreen_context \<Rightarrow> input_event \<Rightarrow> trackscreen_context" where
  "flush_tp_events ctx report =
     (let c1 = ctx\<lparr>tp_out := tp_out ctx @ [take (nat (input_events ctx)) (input_event ctx)]\<rparr>;
          c2 = c1\<lparr>input_events := 0\<rparr>
      in c2\<lparr>tp_out := tp_out c2 @ [[report]]\<rparr>)"

definition emit_sidekey_event :: "trackscreen_context \<Rightarrow> int \<Rightarrow> trackscreen_context" where
  "emit_sidekey_event ctx val =
     ctx\<lparr>kbd_out := kbd_out ctx @
            [[\<lparr>ev_type = EV_KEY, ev_code = word_of_int (keycode ctx), ev_value = val\<rparr>,
              \<lparr>ev_type = EV_SYN, ev_code = SYN_REPORT, ev_value = 0\<rparr>]]\<rparr>"

subsection \<open>The bounds check\<close>

text \<open>
  The first loop of \<open>check_bounds\<close>: over the queued events, the last X and the last
  Y value seen, starting from the position of the previous report.
\<close>

fun pick_position :: "input_event list \<Rightarrow> int \<times> int \<Rightarrow> int \<times> int" where
  "pick_position [] (x, y) = (x, y)"
| "pick_position (ev # evs) (x, y) =
     pick_position evs
       (if ev_type ev = EV_ABS then
          (if ev_code ev = ABS_X \<or> ev_code ev = ABS_MT_POSITION_X then (ev_value ev, y)
           else if ev_code ev = ABS_Y \<or> ev_code ev = ABS_MT_POSITION_Y then (x, ev_value ev)
           else (x, y))
        else (x, y))"

definition resolve_position :: "trackscreen_context \<Rightarrow> int \<times> int" where
  "resolve_position ctx = pick_position (queued ctx) (pos_x ctx, pos_y ctx)"

text \<open>The local \<open>side_touches\<close>, as the nested conditionals compute it.\<close>

definition side_touches :: "trackscreen_context \<Rightarrow> int \<Rightarrow> int \<Rightarrow> int" where
  "side_touches ctx x y =
     (if y \<ge> tp_min_y ctx \<and> y < tp_max_y ctx then
        (if x < tp_min_x ctx \<or> x \<ge> tp_max_x ctx then 1 else 0)
      else 0)"

text \<open>Clamp and adjust: one coordinate, between the bounds of its axis.\<close>

definition clamp_adjust :: "int \<Rightarrow> int \<Rightarrow> int \<Rightarrow> int" where
  "clamp_adjust lo hi v =
     (let v1 = (if v < lo then lo else if v \<ge> hi then hi - 1 else v)
      in v1 - lo)"

text \<open>The body of the second loop: one queued event, its position value replaced.\<close>

definition replace_position :: "int \<Rightarrow> int \<Rightarrow> input_event \<Rightarrow> input_event" where
  "replace_position x y ev =
     (if ev_type ev = EV_ABS then
        (if ev_code ev = ABS_X \<or> ev_code ev = ABS_MT_POSITION_X then ev\<lparr>ev_value := x\<rparr>
         else if ev_code ev = ABS_Y \<or> ev_code ev = ABS_MT_POSITION_Y then ev\<lparr>ev_value := y\<rparr>
         else ev)
      else ev)"

definition check_bounds :: "trackscreen_context \<Rightarrow> trackscreen_context" where
  "check_bounds ctx =
     (let (x, y) = resolve_position ctx
      in if x = - 1 \<or> y = - 1 then ctx
         else
           let st = side_touches ctx x y;
               c1 = (if word_of_int st \<noteq> sidekey ctx then
                       (let c = ctx\<lparr>sidekey := word_of_int st\<rparr>
                        in if kbd c > 0 then emit_sidekey_event c st else c)
                     else ctx);
               c2 = c1\<lparr>pos_x := x, pos_y := y\<rparr>;
               x' = clamp_adjust (tp_min_x c2) (tp_max_x c2) x;
               y' = clamp_adjust (tp_min_y c2) (tp_max_y c2) y;
               n = nat (input_events c2)
           in c2\<lparr>input_event :=
                    map (replace_position x' y') (take n (input_event c2)) @
                    drop n (input_event c2)\<rparr>)"

subsection \<open>Finger-count tool events\<close>

definition finger_tap_codes :: "u16 list" where
  "finger_tap_codes =
     [0, BTN_TOOL_FINGER, BTN_TOOL_DOUBLETAP, BTN_TOOL_TRIPLETAP, BTN_TOOL_QUADTAP,
      BTN_TOOL_QUINTTAP]"

definition emit_multitap :: "trackscreen_context \<Rightarrow> int \<Rightarrow> int \<Rightarrow> trackscreen_context" where
  "emit_multitap ctx fc val =
     (if fc \<le> 0 \<or> fc > 5 then ctx
      else queue_tp_event ctx EV_KEY (finger_tap_codes ! nat fc) val)"

subsection \<open>One event\<close>

text \<open>
  The counting loop at the head of the sync branch of \<open>handle_event\<close>: the index runs
  over the \<open>MAX_FINGERS\<close> slots.
\<close>

definition count_fingers :: "int list \<Rightarrow> int" where
  "count_fingers fs = fold (\<lambda>i n. if fs ! i > 0 then n + 1 else n) [0..<MAX_FINGERS] 0"

text \<open>
  \<open>handle_event\<close> reads one event; the argument is what \<open>read\<close> delivered, \<open>None\<close> for
  a failed or short read. The result pairs the returned status with the context.
\<close>

definition handle_event ::
  "trackscreen_context \<Rightarrow> input_event option \<Rightarrow> int \<times> trackscreen_context" where
  "handle_event ctx rd =
     (case rd of
        None \<Rightarrow> (- 1, ctx)
      | Some ev \<Rightarrow>
          if ev_type ev = EV_SYN \<and> ev_code ev = SYN_REPORT then
            (let fc = count_fingers (fingers ctx);
                 c1 = (if fc \<noteq> finger_count ctx then
                         (let a = emit_multitap ctx (finger_count ctx) 0;
                              b = emit_multitap a fc 1
                          in b\<lparr>finger_count := fc\<rparr>)
                       else ctx);
                 c2 = check_bounds c1;
                 c3 = (if fc = 0 \<and> sidekey c2 \<noteq> 0 then
                         (let c = c2\<lparr>sidekey := 0\<rparr>
                          in if keycode c > 0 then emit_sidekey_event c 0 else c)
                       else c2)
             in (0, flush_tp_events c3 ev))
          else if ev_type ev \<noteq> EV_ABS then
            (0, queue_tp_event ctx (ev_type ev) (ev_code ev) (ev_value ev))
          else
            (let c1 = (if ev_code ev = ABS_MT_SLOT then ctx\<lparr>slot := word_of_int (ev_value ev)\<rparr>
                       else if ev_code ev = ABS_MT_TRACKING_ID then
                         (if slot ctx < of_nat MAX_FINGERS then
                            ctx\<lparr>fingers := (fingers ctx)[unat (slot ctx) := ev_value ev]\<rparr>
                          else ctx)
                       else ctx)
             in (0, queue_tp_event c1 (ev_type ev) (ev_code ev) (ev_value ev))))"

section \<open>Drivers and scenarios\<close>

text \<open>
  Definitions used to state the properties: drivers that call the functions above in
  sequence, predicates in the words of the specification, and the concrete contexts
  of the scenarios.
\<close>

text \<open>The sync marker that ends a report.\<close>

definition syn_report :: input_event where
  "syn_report = \<lparr>ev_type = EV_SYN, ev_code = SYN_REPORT, ev_value = 0\<rparr>"

definition abs_event :: "u16 \<Rightarrow> int \<Rightarrow> input_event" where
  "abs_event code val = \<lparr>ev_type = EV_ABS, ev_code = code, ev_value = val\<rparr>"

definition key_event :: "u16 \<Rightarrow> int \<Rightarrow> input_event" where
  "key_event code val = \<lparr>ev_type = EV_KEY, ev_code = code, ev_value = val\<rparr>"

text \<open>Queuing a sequence of events, one \<open>queue_tp_event\<close> call each, in order.\<close>

fun queue_all :: "trackscreen_context \<Rightarrow> input_event list \<Rightarrow> trackscreen_context" where
  "queue_all ctx [] = ctx"
| "queue_all ctx (e # es) =
     queue_all (queue_tp_event ctx (ev_type e) (ev_code e) (ev_value e)) es"

text \<open>
  The percentage tuples the specification calls valid: left and top in \<open>[0,100)\<close>,
  width and height in \<open>(0,100]\<close>, neither sum above 100.
\<close>

definition valid_percentages :: "int \<Rightarrow> int \<Rightarrow> int \<Rightarrow> int \<Rightarrow> bool" where
  "valid_percentages l t w h =
     (0 \<le> l \<and> l < 100 \<and> 0 \<le> t \<and> t < 100 \<and> 0 < w \<and> w \<le> 100 \<and> 0 < h \<and> h \<le> 100 \<and>
      l + w \<le> 100 \<and> t + h \<le> 100)"

text \<open>
  A touchscreen reporting \<open>[0,1000]\<close> on both axes with the default percentages, and
  one reporting \<open>[0,3]\<close>.
\<close>

definition screen_1000 :: trackscreen_context where
  "screen_1000 = initial_context\<lparr>ts_max_x := 1000, ts_max_y := 1000\<rparr>"

definition screen_3 :: trackscreen_context where
  "screen_3 = initial_context\<lparr>ts_max_x := 3, ts_max_y := 3\<rparr>"


text \<open>
  The context of the scenarios: the screen \<open>[0,1000] \<times> [0,1000]\<close> with its bounds
  computed (x in \<open>[330,660)\<close>, y in \<open>[670,1000)\<close>), without a keyboard as \<open>main\<close>
  leaves it when no \<open>-k\<close> is given, and with one (\<open>-k 85\<close>, the keyboard opened as
  descriptor 5).
\<close>

definition region_ctx :: trackscreen_context where
  "region_ctx = compute_trackpad_bounds screen_1000"

definition kbd_ctx :: trackscreen_context where
  "kbd_ctx = region_ctx\<lparr>keycode := 85, kbd := 5\<rparr>"

text \<open>A context in whose pending report a touch at \<open>(x, y)\<close> has been queued.\<close>

definition touch :: "trackscreen_context \<Rightarrow> int \<Rightarrow> int \<Rightarrow> trackscreen_context" where
  "touch ctx x y =
     queue_all ctx [abs_event ABS_MT_POSITION_X x, abs_event ABS_MT_POSITION_Y y]"

text \<open>
  Runs of \<open>handle_event\<close>: \<open>feed\<close> delivers the events of a list in order, \<open>report\<close>
  delivers the events of one report and then its sync marker, \<open>reports\<close> a sequence
  of reports.
\<close>

definition is_sync :: "input_event \<Rightarrow> bool" where
  "is_sync ev = (ev_type ev = EV_SYN \<and> ev_code ev = SYN_REPORT)"

definition feed :: "trackscreen_context \<Rightarrow> input_event list \<Rightarrow> trackscreen_context" where
  "feed ctx evs = fold (\<lambda>ev c. snd (handle_event c (Some ev))) evs ctx"

definition report :: "trackscreen_context \<Rightarrow> input_event list \<Rightarrow> trackscreen_context" where
  "report ctx evs = snd (handle_event (feed ctx evs) (Some syn_report))"

fun reports :: "trackscreen_context \<Rightarrow> input_event list list \<Rightarrow> trackscreen_context" where
  "reports ctx [] = ctx"
| "reports ctx (r # rs) = reports (report ctx r) rs"

text \<open>
  The context just before the sync event of a lift: a finger has come down beside
  the trackpad at \<open>(100, 800)\<close>, that report has been synced, and the finger has
  lifted.
\<close>

definition side_lift_ctx :: "trackscreen_context \<Rightarrow> trackscreen_context" where
  "side_lift_ctx ctx =
     feed
       (report ctx
          [abs_event ABS_MT_TRACKING_ID 7, abs_event ABS_MT_POSITION_X 100,
           abs_event ABS_MT_POSITION_Y 800])
       [abs_event ABS_MT_TRACKING_ID (- 1)]"

text \<open>
  The blocks of \<open>handle_event\<close>, named so that they can be reasoned about one at a
  time: the \<open>switch\<close> on the code of an absolute event, which selects a slot or
  stores a tracking ID, and the two conditional blocks of the sync branch, the tool
  events on a change of the finger count and the release of the sidekey when no
  finger is left. \<open>handle_event_sync\<close> and \<open>handle_event_other\<close> below show that
  \<open>handle_event\<close> is their composition.
\<close>

definition slot_step :: "trackscreen_context \<Rightarrow> input_event \<Rightarrow> trackscreen_context" where
  "slot_step ctx ev =
     (if ev_type ev \<noteq> EV_ABS then ctx
      else if ev_code ev = ABS_MT_SLOT then ctx\<lparr>slot := word_of_int (ev_value ev)\<rparr>
      else if ev_code ev = ABS_MT_TRACKING_ID then
        (if slot ctx < of_nat MAX_FINGERS then
           ctx\<lparr>fingers := (fingers ctx)[unat (slot ctx) := ev_value ev]\<rparr>
         else ctx)
      else ctx)"

definition tools_step :: "trackscreen_context \<Rightarrow> trackscreen_context" where
  "tools_step ctx =
     (let fc = count_fingers (fingers ctx)
      in if fc \<noteq> finger_count ctx then
           (emit_multitap (emit_multitap ctx (finger_count ctx) 0) fc 1)\<lparr>finger_count := fc\<rparr>
         else ctx)"

definition release_step :: "int \<Rightarrow> trackscreen_context \<Rightarrow> trackscreen_context" where
  "release_step fc c2 =
     (if fc = 0 \<and> sidekey c2 \<noteq> 0 then
        (let c = c2\<lparr>sidekey := 0\<rparr>
         in if keycode c > 0 then emit_sidekey_event c 0 else c)
      else c2)"

text \<open>
  A run of reports that all resolve a position classified \<open>s\<close> by the bounds check,
  none of which fires the release of the sidekey on a finger count of zero.
\<close>

fun steady_run :: "int \<Rightarrow> trackscreen_context \<Rightarrow> input_event list list \<Rightarrow> bool" where
  "steady_run s ctx [] = True"
| "steady_run s ctx (r # rs) =
     (let c = feed ctx r; (x, y) = resolve_position c
      in list_all (\<lambda>e. \<not> is_sync e) r \<and> x \<noteq> - 1 \<and> y \<noteq> - 1 \<and>
         side_touches c x y = s \<and>
         \<not> (count_fingers (fingers c) = 0 \<and> s = 1) \<and>
         steady_run s (report ctx r) rs)"

text \<open>
  Three runs of reports, each written without its sync markers. In \<open>side_run\<close> a
  finger comes down left of the trackpad, inside its vertical band, and moves there;
  in \<open>inside_run\<close> it comes down inside the trackpad; in \<open>side_lift_run\<close> it comes
  down beside the trackpad, lifts, and one more report without events follows.
\<close>

definition side_run :: "input_event list list" where
  "side_run =
     [[abs_event ABS_MT_TRACKING_ID 7, abs_event ABS_MT_POSITION_X 100,
       abs_event ABS_MT_POSITION_Y 800],
      [abs_event ABS_MT_POSITION_X 120],
      [abs_event ABS_MT_POSITION_Y 810]]"

definition inside_run :: "input_event list list" where
  "inside_run =
     [[abs_event ABS_MT_TRACKING_ID 7, abs_event ABS_MT_POSITION_X 500,
       abs_event ABS_MT_POSITION_Y 800],
      [abs_event ABS_MT_POSITION_X 510]]"

definition side_lift_run :: "input_event list list" where
  "side_lift_run =
     [[abs_event ABS_MT_TRACKING_ID 7, abs_event ABS_MT_POSITION_X 100,
       abs_event ABS_MT_POSITION_Y 800],
      [abs_event ABS_MT_TRACKING_ID (- 1)],
      []]"

text \<open>
  Contexts just before a sync event. In \<open>one_finger_ctx\<close> a first finger with
  tracking ID 7 has come down inside the trackpad; \<open>zero_id_ctx\<close> is the same touch
  with tracking ID 0, the first ID the kernel hands out; in \<open>two_finger_lift_ctx\<close>
  two fingers were down at the last report and the second has now lifted.
\<close>

definition one_finger_ctx :: trackscreen_context where
  "one_finger_ctx =
     feed region_ctx
       [abs_event ABS_MT_TRACKING_ID 7, abs_event ABS_MT_POSITION_X 500,
        abs_event ABS_MT_POSITION_Y 800]"

definition zero_id_ctx :: trackscreen_context where
  "zero_id_ctx =
     feed region_ctx
       [abs_event ABS_MT_TRACKING_ID 0, abs_event ABS_MT_POSITION_X 500,
        abs_event ABS_MT_POSITION_Y 800]"

definition two_finger_lift_ctx :: trackscreen_context where
  "two_finger_lift_ctx =
     feed
       (report region_ctx
          [abs_event ABS_MT_SLOT 0, abs_event ABS_MT_TRACKING_ID 7,
           abs_event ABS_MT_POSITION_X 500, abs_event ABS_MT_POSITION_Y 800,
           abs_event ABS_MT_SLOT 1, abs_event ABS_MT_TRACKING_ID 8,
           abs_event ABS_MT_POSITION_X 520, abs_event ABS_MT_POSITION_Y 820])
       [abs_event ABS_MT_TRACKING_ID (- 1)]"

text \<open>
  The tool code of a finger count, in the words of the specification, and the tool
  events of a change of the count from \<open>a\<close> to \<open>b\<close>: the lift of \<open>a\<close>, then the press
  of \<open>b\<close>, each only for a count from 1 to 5.
\<close>

definition tool_code :: "int \<Rightarrow> u16" where
  "tool_code n =
     (if n = 1 then BTN_TOOL_FINGER
      else if n = 2 then BTN_TOOL_DOUBLETAP
      else if n = 3 then BTN_TOOL_TRIPLETAP
      else if n = 4 then BTN_TOOL_QUADTAP
      else BTN_TOOL_QUINTTAP)"

definition tool_events :: "int \<Rightarrow> int \<Rightarrow> input_event list" where
  "tool_events a b =
     (if 1 \<le> a \<and> a \<le> 5 then [key_event (tool_code a) 0] else []) @
     (if 1 \<le> b \<and> b \<le> 5 then [key_event (tool_code b) 1] else [])"

text \<open>The number of slots of a table that hold a non-negative tracking ID.\<close>

definition occupied_slots :: "int list \<Rightarrow> int" where
  "occupied_slots fs = int (length (filter (\<lambda>t. 0 \<le> t) fs))"

section \<open>Basic facts\<close>

lemmas event_codes =
  EV_SYN_def EV_KEY_def EV_ABS_def SYN_REPORT_def ABS_X_def ABS_Y_def ABS_MT_SLOT_def
  ABS_MT_POSITION_X_def ABS_MT_POSITION_Y_def ABS_MT_TRACKING_ID_def
  BTN_TOOL_FINGER_def BTN_TOOL_QUINTTAP_def BTN_TOOL_DOUBLETAP_def
  BTN_TOOL_TRIPLETAP_def BTN_TOOL_QUADTAP_def

lemma input_event_eta [simp]:
  "\<lparr>ev_type = ev_type e, ev_code = ev_code e, ev_value = ev_value e\<rparr> = e"
  by (cases e) simp


lemma length_queued: "wf_context ctx \<Longrightarrow> length (queued ctx) = nat (input_events ctx)"
  by (auto simp: wf_context_def queued_def)

lemma length_queued_le: "wf_context ctx \<Longrightarrow> length (queued ctx) \<le> 24"
  by (auto simp: wf_context_def queued_def MAX_EVENTS_PER_REPORT_def)

subsection \<open>The queue\<close>

lemma queued_queue_tp_event:
  "wf_context ctx \<Longrightarrow> queued (queue_tp_event ctx t c v) =
     (if input_events ctx \<ge> MAX_EVENTS_PER_REPORT then queued ctx
      else queued ctx @ [\<lparr>ev_type = t, ev_code = c, ev_value = v\<rparr>])"
  by (auto simp: wf_context_def queued_def queue_tp_event_def MAX_EVENTS_PER_REPORT_def
      nat_add_distrib take_Suc_conv_app_nth)

lemma wf_queue_tp_event: "wf_context ctx \<Longrightarrow> wf_context (queue_tp_event ctx t c v)"
  by (auto simp: wf_context_def queue_tp_event_def MAX_EVENTS_PER_REPORT_def)

lemma tp_out_queue_tp_event [simp]: "tp_out (queue_tp_event ctx t c v) = tp_out ctx"
  by (simp add: queue_tp_event_def)

lemma wf_queue_all: "wf_context ctx \<Longrightarrow> wf_context (queue_all ctx es)"
  by (induction es arbitrary: ctx) (simp_all add: wf_queue_tp_event)

lemma tp_out_queue_all [simp]: "tp_out (queue_all ctx es) = tp_out ctx"
  by (induction es arbitrary: ctx) simp_all

lemma queued_queue_all:
  "wf_context ctx \<Longrightarrow> queued (queue_all ctx es) = take 24 (queued ctx @ es)"
proof (induction es arbitrary: ctx)
  case Nil
  then have "length (queued ctx) \<le> 24" by (rule length_queued_le)
  then show ?case by simp
next
  case (Cons e es)
  let ?c = "queue_tp_event ctx (ev_type e) (ev_code e) (ev_value e)"
  have wf: "wf_context ?c" using Cons.prems by (rule wf_queue_tp_event)
  have step: "queued (queue_all ctx (e # es)) = take 24 (queued ?c @ es)"
    using Cons.IH [OF wf] by simp
  show ?case
  proof (cases "input_events ctx \<ge> MAX_EVENTS_PER_REPORT")
    case True
    then have "length (queued ctx) = 24"
      using Cons.prems length_queued [of ctx]
      by (simp add: wf_context_def MAX_EVENTS_PER_REPORT_def)
    then show ?thesis
      using step True Cons.prems by (simp add: queued_queue_tp_event)
  next
    case False
    then show ?thesis
      using step Cons.prems by (simp add: queued_queue_tp_event)
  qed
qed

lemma flush_tp_events_out:
  "tp_out (flush_tp_events ctx r) = tp_out ctx @ [queued ctx, [r]]"
  by (simp add: flush_tp_events_def queued_def Let_def)


section \<open>Geometry resolution\<close>

subsection \<open>Validation of the percentages\<close>

lemma sscanf_store_four:
  "sscanf_store ctx [l, t, w, h] =
     ctx\<lparr>tp_left_percent := l, tp_top_percent := t, tp_width_percent := w,
         tp_height_percent := h\<rparr>"
  by (simp add: sscanf_store_def)

lemma read_trackpad_dimensions_four:
  "read_trackpad_dimensions ctx [l, t, w, h] =
     (if valid_percentages l t w h then 0 else - 1,
      ctx\<lparr>tp_left_percent := l, tp_top_percent := t,
          tp_width_percent := w, tp_height_percent := h\<rparr>)"
  unfolding read_trackpad_dimensions_def sscanf_store_four valid_percentages_def Let_def
  by (simp add: not_le not_less)

text \<open>
  Claim C6. On four scanned integers \<open>read_trackpad_dimensions\<close> returns 0 exactly
  when left and top are in \<open>[0,100)\<close>, width and height are in \<open>(0,100]\<close> and neither
  left + width nor top + height exceeds 100; on every other tuple it returns \<open>-1\<close>,
  and \<open>main\<close> then returns 1 from its option loop, so that the bounds are never
  computed.
\<close>

theorem read_trackpad_dimensions_status:
  "(fst (read_trackpad_dimensions ctx [l, t, w, h]) = 0 \<longleftrightarrow> valid_percentages l t w h) \<and>
   (fst (read_trackpad_dimensions ctx [l, t, w, h]) = - 1 \<longleftrightarrow> \<not> valid_percentages l t w h) \<and>
   (main_option_d ctx [l, t, w, h] =
      (if valid_percentages l t w h
       then Inr (ctx\<lparr>tp_left_percent := l, tp_top_percent := t,
                     tp_width_percent := w, tp_height_percent := h\<rparr>)
       else Inl 1))"
  by (simp add: read_trackpad_dimensions_four main_option_d_def)

text \<open>
  The default tuple is accepted; a negative left, a top of 100, a zero width and a
  sum of 101 are each rejected.
\<close>

theorem read_trackpad_dimensions_status_witness:
  "fst (read_trackpad_dimensions initial_context [33, 67, 33, 33]) = 0 \<and>
   fst (read_trackpad_dimensions initial_context [- 1, 67, 33, 33]) = - 1 \<and>
   main_option_d initial_context [0, 100, 33, 33] = Inl 1 \<and>
   main_option_d initial_context [33, 67, 0, 33] = Inl 1 \<and>
   main_option_d initial_context [33, 67, 33, 34] = Inl 1"
  using read_trackpad_dimensions_status [of initial_context 33 67 33 33]
    read_trackpad_dimensions_status [of initial_context "- 1" 67 33 33]
    read_trackpad_dimensions_status [of initial_context 0 100 33 33]
    read_trackpad_dimensions_status [of initial_context 33 67 0 33]
    read_trackpad_dimensions_status [of initial_context 33 67 33 34]
  by (simp add: valid_percentages_def)

subsection \<open>The trackpad rectangle\<close>

lemma c_div_nonneg: "0 \<le> a \<Longrightarrow> 0 < b \<Longrightarrow> c_div a b = a div b"
  by (cases "a = 0") (simp_all add: c_div_def)

lemma div_100_add_le: "(a::int) div 100 + b div 100 \<le> (a + b) div 100"
proof -
  have a: "100 * (a div 100) \<le> a" and b: "100 * (b div 100) \<le> b"
    by simp_all
  have "(a div 100 + b div 100) * 100 div 100 \<le> (a + b) div 100"
    using a b by (intro zdiv_mono1) simp_all
  then show ?thesis by simp
qed

lemma percent_share:
  assumes "0 \<le> (W::int)" "0 \<le> l" "0 \<le> w" "l + w \<le> 100"
  shows "W * l div 100 + W * w div 100 \<le> W"
proof -
  have "W * l div 100 + W * w div 100 \<le> (W * l + W * w) div 100"
    by (rule div_100_add_le)
  also have "W * l + W * w = W * (l + w)"
    by (simp add: distrib_left)
  also have "W * (l + w) div 100 \<le> W * 100 div 100"
    using assms by (intro zdiv_mono1 mult_left_mono) simp_all
  finally show ?thesis by simp
qed

lemma percent_pos: "(0 < (a::int) div 100) = (100 \<le> a)"
  by (simp add: pos_imp_zdiv_pos_iff)

text \<open>
  Claim C7, as the code has it. The claim asks for a non-empty rectangle on every
  screen; the divisions by 100 truncate, so a screen narrower than \<open>100 / width\<close>
  units gets an empty one. What holds on every screen with a positive extent (whose
  bounds, and extent times 100, are C \<open>int\<close>s) and every valid tuple: the rectangle lies inside
  the screen, \<open>ts_min \<le> tp_min \<le> tp_max \<le> ts_max\<close> on both axes, and on each axis it
  is non-empty exactly when extent times percentage reaches 100. On the screen
  \<open>[0,1000] \<times> [0,1000]\<close> the tuple 33,67,33,33 gives x in \<open>[330,660)\<close> and y in
  \<open>[670,1000)\<close>.
\<close>

theorem compute_trackpad_bounds_region:
  assumes "ts_min_x ctx < ts_max_x ctx" and "ts_min_y ctx < ts_max_y ctx"
    and "valid_percentages (tp_left_percent ctx) (tp_top_percent ctx)
           (tp_width_percent ctx) (tp_height_percent ctx)"
    and "c_int (ts_min_x ctx)" and "c_int (ts_min_y ctx)"
    and "c_int ((ts_max_x ctx - ts_min_x ctx) * 100)"
    and "c_int ((ts_max_y ctx - ts_min_y ctx) * 100)"
    and "c_int (ts_max_x ctx)" and "c_int (ts_max_y ctx)"
  shows "ts_min_x ctx \<le> tp_min_x (compute_trackpad_bounds ctx) \<and>
         tp_min_x (compute_trackpad_bounds ctx) \<le> tp_max_x (compute_trackpad_bounds ctx) \<and>
         tp_max_x (compute_trackpad_bounds ctx) \<le> ts_max_x ctx \<and>
         ts_min_y ctx \<le> tp_min_y (compute_trackpad_bounds ctx) \<and>
         tp_min_y (compute_trackpad_bounds ctx) \<le> tp_max_y (compute_trackpad_bounds ctx) \<and>
         tp_max_y (compute_trackpad_bounds ctx) \<le> ts_max_y ctx \<and>
         (tp_min_x (compute_trackpad_bounds ctx) < tp_max_x (compute_trackpad_bounds ctx) \<longleftrightarrow>
            100 \<le> (ts_max_x ctx - ts_min_x ctx) * tp_width_percent ctx) \<and>
         (tp_min_y (compute_trackpad_bounds ctx) < tp_max_y (compute_trackpad_bounds ctx) \<longleftrightarrow>
            100 \<le> (ts_max_y ctx - ts_min_y ctx) * tp_height_percent ctx) \<and>
         tp_min_x (compute_trackpad_bounds screen_1000) = 330 \<and>
         tp_max_x (compute_trackpad_bounds screen_1000) = 660 \<and>
         tp_min_y (compute_trackpad_bounds screen_1000) = 670 \<and>
         tp_max_y (compute_trackpad_bounds screen_1000) = 1000"
proof -
  let ?W = "ts_max_x ctx - ts_min_x ctx" and ?H = "ts_max_y ctx - ts_min_y ctx"
  let ?l = "tp_left_percent ctx" and ?t = "tp_top_percent ctx"
  let ?w = "tp_width_percent ctx" and ?h = "tp_height_percent ctx"
  have W: "0 \<le> ?W" and H: "0 \<le> ?H" using assms(1,2) by simp_all
  have p: "0 \<le> ?l" "0 \<le> ?t" "0 \<le> ?w" "0 \<le> ?h" "?l + ?w \<le> 100" "?t + ?h \<le> 100"
    using assms(3) by (simp_all add: valid_percentages_def)
  have Wl: "0 \<le> ?W * ?l" and Ww: "0 \<le> ?W * ?w" and Ht: "0 \<le> ?H * ?t" and Hh: "0 \<le> ?H * ?h"
    using W H p by simp_all
  have minx: "tp_min_x (compute_trackpad_bounds ctx) = ts_min_x ctx + ?W * ?l div 100"
    using Wl by (simp add: compute_trackpad_bounds_def Let_def c_div_nonneg)
  have maxx: "tp_max_x (compute_trackpad_bounds ctx) =
                ts_min_x ctx + ?W * ?l div 100 + ?W * ?w div 100"
    using Wl Ww by (simp add: compute_trackpad_bounds_def Let_def c_div_nonneg)
  have miny: "tp_min_y (compute_trackpad_bounds ctx) = ts_min_y ctx + ?H * ?t div 100"
    using Ht by (simp add: compute_trackpad_bounds_def Let_def c_div_nonneg)
  have maxy: "tp_max_y (compute_trackpad_bounds ctx) =
                ts_min_y ctx + ?H * ?t div 100 + ?H * ?h div 100"
    using Ht Hh by (simp add: compute_trackpad_bounds_def Let_def c_div_nonneg)
  have dl: "0 \<le> ?W * ?l div 100" and dw: "0 \<le> ?W * ?w div 100"
    and dt: "0 \<le> ?H * ?t div 100" and dh: "0 \<le> ?H * ?h div 100"
    using Wl Ww Ht Hh by (simp_all add: pos_imp_zdiv_nonneg_iff)
  have sx: "?W * ?l div 100 + ?W * ?w div 100 \<le> ?W"
    using W p by (intro percent_share) simp_all
  have sy: "?H * ?t div 100 + ?H * ?h div 100 \<le> ?H"
    using H p by (intro percent_share) simp_all
  have cx: "ts_min_x ctx \<le> tp_min_x (compute_trackpad_bounds ctx) \<and>
         tp_min_x (compute_trackpad_bounds ctx) \<le> tp_max_x (compute_trackpad_bounds ctx) \<and>
         tp_max_x (compute_trackpad_bounds ctx) \<le> ts_max_x ctx"
    unfolding minx maxx using dl dw sx by linarith
  have cy: "ts_min_y ctx \<le> tp_min_y (compute_trackpad_bounds ctx) \<and>
         tp_min_y (compute_trackpad_bounds ctx) \<le> tp_max_y (compute_trackpad_bounds ctx) \<and>
         tp_max_y (compute_trackpad_bounds ctx) \<le> ts_max_y ctx"
    unfolding miny maxy using dt dh sy by linarith
  have nx: "(tp_min_x (compute_trackpad_bounds ctx) < tp_max_x (compute_trackpad_bounds ctx)) =
            (100 \<le> ?W * ?w)"
    unfolding minx maxx percent_pos [symmetric] by simp
  have ny: "(tp_min_y (compute_trackpad_bounds ctx) < tp_max_y (compute_trackpad_bounds ctx)) =
            (100 \<le> ?H * ?h)"
    unfolding miny maxy percent_pos [symmetric] by simp
  have sc: "tp_min_x (compute_trackpad_bounds screen_1000) = 330 \<and>
         tp_max_x (compute_trackpad_bounds screen_1000) = 660 \<and>
         tp_min_y (compute_trackpad_bounds screen_1000) = 670 \<and>
         tp_max_y (compute_trackpad_bounds screen_1000) = 1000"
    by (simp add: compute_trackpad_bounds_def screen_1000_def initial_context_def Let_def
        c_div_def)
  from cx cy nx ny sc show ?thesis by simp
qed

text \<open>
  The theorem on the screen of the scenario: every hypothesis holds there, and both
  products reach 100, so the rectangle is not empty.
\<close>

theorem compute_trackpad_bounds_region_witness:
  "ts_min_x screen_1000 < ts_max_x screen_1000 \<and>
   ts_min_y screen_1000 < ts_max_y screen_1000 \<and>
   valid_percentages (tp_left_percent screen_1000) (tp_top_percent screen_1000)
     (tp_width_percent screen_1000) (tp_height_percent screen_1000) \<and>
   c_int (ts_min_x screen_1000) \<and> c_int (ts_min_y screen_1000) \<and>
   c_int ((ts_max_x screen_1000 - ts_min_x screen_1000) * 100) \<and>
   c_int ((ts_max_y screen_1000 - ts_min_y screen_1000) * 100) \<and>
   c_int (ts_max_x screen_1000) \<and> c_int (ts_max_y screen_1000) \<and>
   tp_min_x (compute_trackpad_bounds screen_1000) < tp_max_x (compute_trackpad_bounds screen_1000) \<and>
   tp_min_y (compute_trackpad_bounds screen_1000) < tp_max_y (compute_trackpad_bounds screen_1000) \<and>
   tp_max_x (compute_trackpad_bounds screen_1000) \<le> ts_max_x screen_1000 \<and>
   tp_max_y (compute_trackpad_bounds screen_1000) \<le> ts_max_y screen_1000"
proof -
  have h1: "ts_min_x screen_1000 < ts_max_x screen_1000"
    and h2: "ts_min_y screen_1000 < ts_max_y screen_1000"
    and h3: "valid_percentages (tp_left_percent screen_1000) (tp_top_percent screen_1000)
               (tp_width_percent screen_1000) (tp_height_percent screen_1000)"
    and h4: "c_int (ts_min_x screen_1000)" and h5: "c_int (ts_min_y screen_1000)"
    and h6: "c_int ((ts_max_x screen_1000 - ts_min_x screen_1000) * 100)"
    and h7: "c_int ((ts_max_y screen_1000 - ts_min_y screen_1000) * 100)"
    and h8: "c_int (ts_max_x screen_1000)" and h9: "c_int (ts_max_y screen_1000)"
    by (simp_all add: screen_1000_def initial_context_def valid_percentages_def c_int_def)
  have p: "100 \<le> (ts_max_x screen_1000 - ts_min_x screen_1000) * tp_width_percent screen_1000 \<and>
           100 \<le> (ts_max_y screen_1000 - ts_min_y screen_1000) * tp_height_percent screen_1000"
    by (simp add: screen_1000_def initial_context_def)
  show ?thesis
    using h1 h2 h3 h4 h5 h6 h7 h8 h9 p
      compute_trackpad_bounds_region [OF h1 h2 h3 h4 h5 h6 h7 h8 h9]
    by blast
qed

text \<open>
  Where the claim fails: the screen \<open>[0,3] \<times> [0,3]\<close> has a positive extent and the
  default tuple is valid, yet \<open>3 * 33 / 100 = 0\<close> and both sides of the rectangle
  coincide.
\<close>

theorem compute_trackpad_bounds_region_counterexample:
  "ts_min_x screen_3 < ts_max_x screen_3 \<and> ts_min_y screen_3 < ts_max_y screen_3 \<and>
   valid_percentages (tp_left_percent screen_3) (tp_top_percent screen_3)
     (tp_width_percent screen_3) (tp_height_percent screen_3) \<and>
   tp_min_x (compute_trackpad_bounds screen_3) = 0 \<and>
   tp_max_x (compute_trackpad_bounds screen_3) = 0 \<and>
   tp_min_y (compute_trackpad_bounds screen_3) = 2 \<and>
   tp_max_y (compute_trackpad_bounds screen_3) = 2 \<and>
   \<not> tp_min_x (compute_trackpad_bounds screen_3) < tp_max_x (compute_trackpad_bounds screen_3) \<and>
   \<not> tp_min_y (compute_trackpad_bounds screen_3) < tp_max_y (compute_trackpad_bounds screen_3)"
  by (simp add: compute_trackpad_bounds_def screen_3_def initial_context_def Let_def
      c_div_def valid_percentages_def)

section \<open>The bounds check\<close>

subsection \<open>The scenario contexts\<close>

lemma region_ctx_fields:
  "tp_min_x region_ctx = 330 \<and> tp_max_x region_ctx = 660 \<and>
   tp_min_y region_ctx = 670 \<and> tp_max_y region_ctx = 1000 \<and>
   input_events region_ctx = 0 \<and> pos_x region_ctx = 0 \<and> pos_y region_ctx = 0 \<and>
   sidekey region_ctx = 0 \<and> kbd region_ctx = - 1 \<and> keycode region_ctx = - 1 \<and>
   finger_count region_ctx = 0 \<and> slot region_ctx = 0 \<and>
   fingers region_ctx = replicate MAX_FINGERS (- 1) \<and>
   tp_out region_ctx = [] \<and> kbd_out region_ctx = []"
  by (simp add: region_ctx_def compute_trackpad_bounds_def screen_1000_def
      initial_context_def Let_def c_div_def)

lemma wf_region_ctx: "wf_context region_ctx"
  by (simp add: wf_context_def region_ctx_def compute_trackpad_bounds_def screen_1000_def
      initial_context_def Let_def MAX_FINGERS_def MAX_EVENTS_PER_REPORT_def)

lemma queued_region_ctx: "queued region_ctx = []"
  by (simp add: queued_def region_ctx_fields)

lemma queue_all_frame:
  "tp_min_x (queue_all ctx es) = tp_min_x ctx \<and> tp_max_x (queue_all ctx es) = tp_max_x ctx \<and>
   tp_min_y (queue_all ctx es) = tp_min_y ctx \<and> tp_max_y (queue_all ctx es) = tp_max_y ctx \<and>
   pos_x (queue_all ctx es) = pos_x ctx \<and> pos_y (queue_all ctx es) = pos_y ctx \<and>
   sidekey (queue_all ctx es) = sidekey ctx \<and> kbd (queue_all ctx es) = kbd ctx \<and>
   keycode (queue_all ctx es) = keycode ctx \<and> kbd_out (queue_all ctx es) = kbd_out ctx \<and>
   fingers (queue_all ctx es) = fingers ctx \<and> finger_count (queue_all ctx es) = finger_count ctx"
  by (induction es arbitrary: ctx) (simp_all add: queue_tp_event_def)

lemma queued_touch:
  "wf_context ctx \<Longrightarrow> queued ctx = [] \<Longrightarrow>
     queued (touch ctx x y) = [abs_event ABS_MT_POSITION_X x, abs_event ABS_MT_POSITION_Y y]"
  by (simp add: touch_def queued_queue_all del: queue_all.simps)

lemma resolve_position_touch:
  "wf_context ctx \<Longrightarrow> queued ctx = [] \<Longrightarrow> resolve_position (touch ctx x y) = (x, y)"
  by (simp add: resolve_position_def queued_touch abs_event_def event_codes)

subsection \<open>What \<open>check_bounds\<close> changes\<close>

lemma side_touches_cases: "side_touches ctx x y = 0 \<or> side_touches ctx x y = 1"
  by (simp add: side_touches_def)

lemma side_touches_word:
  "(word_of_int (side_touches ctx x y) :: u32) = (if side_touches ctx x y = 1 then 1 else 0)"
  using side_touches_cases [of ctx x y] by auto

lemma check_bounds_unresolved:
  "resolve_position ctx = (x, y) \<Longrightarrow> x = - 1 \<or> y = - 1 \<Longrightarrow> check_bounds ctx = ctx"
  by (simp add: check_bounds_def)

lemma sidekey_check_bounds:
  "resolve_position ctx = (x, y) \<Longrightarrow> x \<noteq> - 1 \<Longrightarrow> y \<noteq> - 1 \<Longrightarrow>
     sidekey (check_bounds ctx) = word_of_int (side_touches ctx x y)"
  by (simp add: check_bounds_def Let_def emit_sidekey_event_def)

lemma kbd_out_check_bounds:
  "resolve_position ctx = (x, y) \<Longrightarrow> x \<noteq> - 1 \<Longrightarrow> y \<noteq> - 1 \<Longrightarrow>
     kbd_out (check_bounds ctx) =
       kbd_out ctx @
       (if word_of_int (side_touches ctx x y) \<noteq> sidekey ctx \<and> kbd ctx > 0
        then [[key_event (word_of_int (keycode ctx)) (side_touches ctx x y), syn_report]]
        else [])"
  by (simp add: check_bounds_def Let_def emit_sidekey_event_def key_event_def syn_report_def)

lemma pos_check_bounds:
  "resolve_position ctx = (x, y) \<Longrightarrow> x \<noteq> - 1 \<Longrightarrow> y \<noteq> - 1 \<Longrightarrow>
     pos_x (check_bounds ctx) = x \<and> pos_y (check_bounds ctx) = y"
  by (simp add: check_bounds_def Let_def emit_sidekey_event_def)

lemma take_map_take_drop: "take n (map f (take n xs) @ drop n xs) = map f (take n xs)"
  by (cases "n \<le> length xs") simp_all

lemma queued_check_bounds:
  "resolve_position ctx = (x, y) \<Longrightarrow> x \<noteq> - 1 \<Longrightarrow> y \<noteq> - 1 \<Longrightarrow>
     queued (check_bounds ctx) =
       map (replace_position (clamp_adjust (tp_min_x ctx) (tp_max_x ctx) x)
                             (clamp_adjust (tp_min_y ctx) (tp_max_y ctx) y)) (queued ctx)"
  by (auto simp: check_bounds_def Let_def emit_sidekey_event_def queued_def take_map_take_drop)

lemma check_bounds_frame:
  "input_events (check_bounds ctx) = input_events ctx \<and>
   fingers (check_bounds ctx) = fingers ctx \<and>
   slot (check_bounds ctx) = slot ctx \<and>
   finger_count (check_bounds ctx) = finger_count ctx \<and>
   kbd (check_bounds ctx) = kbd ctx \<and>
   keycode (check_bounds ctx) = keycode ctx \<and>
   tp_min_x (check_bounds ctx) = tp_min_x ctx \<and>
   tp_max_x (check_bounds ctx) = tp_max_x ctx \<and>
   tp_min_y (check_bounds ctx) = tp_min_y ctx \<and>
   tp_max_y (check_bounds ctx) = tp_max_y ctx \<and>
   tp_out (check_bounds ctx) = tp_out ctx \<and>
   length (input_event (check_bounds ctx)) = length (input_event ctx)"
  by (auto simp: check_bounds_def Let_def emit_sidekey_event_def split: prod.split)

lemma clamp_adjust_range:
  "lo < hi \<Longrightarrow> clamp_adjust lo hi v = max lo (min (hi - 1) v) - lo \<and>
     0 \<le> clamp_adjust lo hi v \<and> clamp_adjust lo hi v < hi - lo"
  by (auto simp: clamp_adjust_def Let_def)

subsection \<open>Classification\<close>

text \<open>
  Claim C3. When the report resolves a position \<open>(x, y)\<close> (neither component is the
  unset value \<open>-1\<close>), the bounds check leaves the sidekey state at 1 exactly when
  \<open>tp_min_y \<le> y < tp_max_y\<close> and \<open>x < tp_min_x\<close> or \<open>x \<ge> tp_max_x\<close>, and at 0 otherwise;
  this is the value of its local \<open>side_touches\<close>. With the region x in \<open>[330,660)\<close>,
  y in \<open>[670,1000)\<close>, the touch \<open>(500,800)\<close> is not a side touch and \<open>(100,800)\<close> is.
\<close>

theorem side_touch_classification:
  assumes "wf_context ctx"
    and "resolve_position ctx = (x, y)" and "x \<noteq> - 1" and "y \<noteq> - 1"
  shows "(sidekey (check_bounds ctx) = 1 \<longleftrightarrow>
            tp_min_y ctx \<le> y \<and> y < tp_max_y ctx \<and> (x < tp_min_x ctx \<or> tp_max_x ctx \<le> x)) \<and>
         (sidekey (check_bounds ctx) = 0 \<longleftrightarrow>
            \<not> (tp_min_y ctx \<le> y \<and> y < tp_max_y ctx \<and> (x < tp_min_x ctx \<or> tp_max_x ctx \<le> x))) \<and>
         (side_touches ctx x y = 1 \<longleftrightarrow>
            tp_min_y ctx \<le> y \<and> y < tp_max_y ctx \<and> (x < tp_min_x ctx \<or> tp_max_x ctx \<le> x)) \<and>
         (side_touches ctx x y = 0 \<longleftrightarrow>
            \<not> (tp_min_y ctx \<le> y \<and> y < tp_max_y ctx \<and> (x < tp_min_x ctx \<or> tp_max_x ctx \<le> x))) \<and>
         side_touches region_ctx 500 800 = 0 \<and>
         side_touches region_ctx 100 800 = 1"
proof -
  have s: "sidekey (check_bounds ctx) = (if side_touches ctx x y = 1 then 1 else 0)"
    using assms by (simp add: sidekey_check_bounds side_touches_word)
  have c: "side_touches ctx x y = 1 \<longleftrightarrow>
            tp_min_y ctx \<le> y \<and> y < tp_max_y ctx \<and> (x < tp_min_x ctx \<or> tp_max_x ctx \<le> x)"
    by (auto simp: side_touches_def)
  have z: "side_touches ctx x y = 0 \<longleftrightarrow> side_touches ctx x y \<noteq> 1"
    using side_touches_cases [of ctx x y] by auto
  have r: "tp_min_x region_ctx = 330 \<and> tp_max_x region_ctx = 660 \<and>
           tp_min_y region_ctx = 670 \<and> tp_max_y region_ctx = 1000"
    by (simp add: region_ctx_fields)
  have sc: "side_touches region_ctx 500 800 = 0 \<and> side_touches region_ctx 100 800 = 1"
    by (simp add: side_touches_def r)
  show ?thesis using s c z sc by auto
qed

text \<open>
  The two touches of the scenario, queued as position events and run through
  \<open>check_bounds\<close>.
\<close>

theorem side_touch_classification_witness:
  "wf_context (touch region_ctx 100 800) \<and> wf_context (touch region_ctx 500 800) \<and>
   resolve_position (touch region_ctx 100 800) = (100, 800) \<and>
   resolve_position (touch region_ctx 500 800) = (500, 800) \<and>
   sidekey (check_bounds (touch region_ctx 100 800)) = 1 \<and>
   sidekey (check_bounds (touch region_ctx 500 800)) = 0"
proof -
  have w: "wf_context (touch region_ctx x y)" for x y
    unfolding touch_def using wf_region_ctx by (rule wf_queue_all)
  have a: "resolve_position (touch region_ctx 100 800) = (100, 800)"
    and b: "resolve_position (touch region_ctx 500 800) = (500, 800)"
    by (simp_all add: resolve_position_touch wf_region_ctx queued_region_ctx)
  have f: "tp_min_x (touch region_ctx x y) = 330 \<and> tp_max_x (touch region_ctx x y) = 660 \<and>
           tp_min_y (touch region_ctx x y) = 670 \<and> tp_max_y (touch region_ctx x y) = 1000" for x y
    by (simp add: touch_def queue_all_frame region_ctx_fields del: queue_all.simps)
  show ?thesis
    using w a b side_touch_classification [OF w a] side_touch_classification [OF w b]
    by (simp add: f)
qed

subsection \<open>The stored position\<close>

text \<open>
  Claim C9, as the code has it. The claim stores the clamped, rebased pair as the
  last known position. The code assigns \<open>pos_x\<close> and \<open>pos_y\<close> before it clamps: after
  the bounds check on a resolved position \<open>(x, y)\<close> the stored position is \<open>(x, y)\<close>
  itself, in touchscreen coordinates. The clamped and rebased values go into the
  coordinate fields of the queued events only; for a non-empty region each is the
  component clamped into \<open>[tp_min, tp_max - 1]\<close> minus \<open>tp_min\<close>, and lies in
  \<open>[0, tp_max - tp_min)\<close>.
\<close>

theorem check_bounds_position:
  assumes "wf_context ctx"
    and "resolve_position ctx = (x, y)" and "x \<noteq> - 1" and "y \<noteq> - 1"
  shows "pos_x (check_bounds ctx) = x \<and> pos_y (check_bounds ctx) = y \<and>
         queued (check_bounds ctx) =
           map (replace_position (clamp_adjust (tp_min_x ctx) (tp_max_x ctx) x)
                                 (clamp_adjust (tp_min_y ctx) (tp_max_y ctx) y)) (queued ctx) \<and>
         (tp_min_x ctx < tp_max_x ctx \<longrightarrow>
            clamp_adjust (tp_min_x ctx) (tp_max_x ctx) x =
              max (tp_min_x ctx) (min (tp_max_x ctx - 1) x) - tp_min_x ctx \<and>
            0 \<le> clamp_adjust (tp_min_x ctx) (tp_max_x ctx) x \<and>
            clamp_adjust (tp_min_x ctx) (tp_max_x ctx) x < tp_max_x ctx - tp_min_x ctx) \<and>
         (tp_min_y ctx < tp_max_y ctx \<longrightarrow>
            clamp_adjust (tp_min_y ctx) (tp_max_y ctx) y =
              max (tp_min_y ctx) (min (tp_max_y ctx - 1) y) - tp_min_y ctx \<and>
            0 \<le> clamp_adjust (tp_min_y ctx) (tp_max_y ctx) y \<and>
            clamp_adjust (tp_min_y ctx) (tp_max_y ctx) y < tp_max_y ctx - tp_min_y ctx)"
  using pos_check_bounds [OF assms(2-4)] queued_check_bounds [OF assms(2-4)]
    clamp_adjust_range [of "tp_min_x ctx" "tp_max_x ctx" x]
    clamp_adjust_range [of "tp_min_y ctx" "tp_max_y ctx" y]
  by blast

text \<open>
  The side touch \<open>(100, 800)\<close>: stored as it is, queued as \<open>(0, 130)\<close>.
\<close>

theorem check_bounds_position_witness:
  "wf_context (touch region_ctx 100 800) \<and>
   resolve_position (touch region_ctx 100 800) = (100, 800) \<and>
   tp_min_x (touch region_ctx 100 800) < tp_max_x (touch region_ctx 100 800) \<and>
   tp_min_y (touch region_ctx 100 800) < tp_max_y (touch region_ctx 100 800) \<and>
   pos_x (check_bounds (touch region_ctx 100 800)) = 100 \<and>
   pos_y (check_bounds (touch region_ctx 100 800)) = 800 \<and>
   queued (check_bounds (touch region_ctx 100 800)) =
     [abs_event ABS_MT_POSITION_X 0, abs_event ABS_MT_POSITION_Y 130]"
proof -
  have w: "wf_context (touch region_ctx 100 800)"
    unfolding touch_def using wf_region_ctx by (rule wf_queue_all)
  have a: "resolve_position (touch region_ctx 100 800) = (100, 800)"
    by (simp add: resolve_position_touch wf_region_ctx queued_region_ctx)
  have f: "tp_min_x (touch region_ctx 100 800) = 330 \<and> tp_max_x (touch region_ctx 100 800) = 660 \<and>
           tp_min_y (touch region_ctx 100 800) = 670 \<and> tp_max_y (touch region_ctx 100 800) = 1000"
    by (simp add: touch_def queue_all_frame region_ctx_fields del: queue_all.simps)
  have q: "queued (touch region_ctx 100 800) =
             [abs_event ABS_MT_POSITION_X 100, abs_event ABS_MT_POSITION_Y 800]"
    by (simp add: queued_touch wf_region_ctx queued_region_ctx)
  show ?thesis
    using w a check_bounds_position [OF w a]
    by (simp add: f q replace_position_def abs_event_def event_codes)
qed

text \<open>
  Where the claim fails: for the same touch the stored position \<open>(100, 800)\<close> is not
  the clamped, rebased pair \<open>(0, 130)\<close>.
\<close>

theorem stored_position_counterexample:
  "resolve_position (touch region_ctx 100 800) = (100, 800) \<and>
   pos_x (check_bounds (touch region_ctx 100 800)) = 100 \<and>
   pos_y (check_bounds (touch region_ctx 100 800)) = 800 \<and>
   clamp_adjust (tp_min_x (touch region_ctx 100 800)) (tp_max_x (touch region_ctx 100 800)) 100 = 0 \<and>
   clamp_adjust (tp_min_y (touch region_ctx 100 800)) (tp_max_y (touch region_ctx 100 800)) 800 = 130 \<and>
   pos_x (check_bounds (touch region_ctx 100 800)) \<noteq>
     clamp_adjust (tp_min_x (touch region_ctx 100 800)) (tp_max_x (touch region_ctx 100 800)) 100 \<and>
   pos_y (check_bounds (touch region_ctx 100 800)) \<noteq>
     clamp_adjust (tp_min_y (touch region_ctx 100 800)) (tp_max_y (touch region_ctx 100 800)) 800"
proof -
  have a: "resolve_position (touch region_ctx 100 800) = (100, 800)"
    by (simp add: resolve_position_touch wf_region_ctx queued_region_ctx)
  have f: "tp_min_x (touch region_ctx 100 800) = 330 \<and> tp_max_x (touch region_ctx 100 800) = 660 \<and>
           tp_min_y (touch region_ctx 100 800) = 670 \<and> tp_max_y (touch region_ctx 100 800) = 1000"
    by (simp add: touch_def queue_all_frame region_ctx_fields del: queue_all.simps)
  have p: "pos_x (check_bounds (touch region_ctx 100 800)) = 100 \<and>
           pos_y (check_bounds (touch region_ctx 100 800)) = 800"
    using pos_check_bounds [OF a] by simp
  show ?thesis
    using a p by (simp add: f clamp_adjust_def)
qed

section \<open>One event: the sync branch\<close>

lemma handle_event_sync:
  "is_sync ev \<Longrightarrow>
     handle_event ctx (Some ev) =
       (0, flush_tp_events
             (release_step (count_fingers (fingers ctx)) (check_bounds (tools_step ctx))) ev)"
  by (simp add: handle_event_def is_sync_def tools_step_def release_step_def Let_def)

lemma count_fold:
  "fold (\<lambda>i n. if fs ! i > (0::int) then n + 1 else n) [0..<length fs] k
     = k + int (length (filter (\<lambda>t. 0 < t) fs))"
proof (induction fs arbitrary: k rule: rev_induct)
  case Nil
  then show ?case by simp
next
  case (snoc x xs)
  have "fold (\<lambda>i n. if (xs @ [x]) ! i > 0 then n + 1 else n) [0..<length xs] k
      = fold (\<lambda>i n. if xs ! i > 0 then n + 1 else n) [0..<length xs] k"
    by (rule fold_cong) (auto simp: nth_append)
  then show ?case using snoc by simp
qed

lemma count_fingers_filter:
  "length fs = MAX_FINGERS \<Longrightarrow> count_fingers fs = int (length (filter (\<lambda>t. 0 < t) fs))"
  using count_fold [of fs 0] by (simp add: count_fingers_def)

lemma finger_tap_codes_nth:
  "1 \<le> n \<Longrightarrow> n \<le> 5 \<Longrightarrow> finger_tap_codes ! nat n = tool_code n"
proof -
  assume "1 \<le> n" "n \<le> 5"
  then consider "n = 1" | "n = 2" | "n = 3" | "n = 4" | "n = 5" by linarith
  then show ?thesis
    by cases (simp_all add: finger_tap_codes_def tool_code_def)
qed

lemma emit_multitap_queue:
  "emit_multitap ctx n v =
     (if 1 \<le> n \<and> n \<le> 5 then queue_tp_event ctx EV_KEY (tool_code n) v else ctx)"
  by (auto simp: emit_multitap_def finger_tap_codes_nth)

lemma queue_tp_event_frame:
  "tp_min_x (queue_tp_event ctx t c v) = tp_min_x ctx \<and>
   tp_max_x (queue_tp_event ctx t c v) = tp_max_x ctx \<and>
   tp_min_y (queue_tp_event ctx t c v) = tp_min_y ctx \<and>
   tp_max_y (queue_tp_event ctx t c v) = tp_max_y ctx \<and>
   pos_x (queue_tp_event ctx t c v) = pos_x ctx \<and>
   pos_y (queue_tp_event ctx t c v) = pos_y ctx \<and>
   sidekey (queue_tp_event ctx t c v) = sidekey ctx \<and>
   kbd (queue_tp_event ctx t c v) = kbd ctx \<and>
   keycode (queue_tp_event ctx t c v) = keycode ctx \<and>
   kbd_out (queue_tp_event ctx t c v) = kbd_out ctx \<and>
   tp_out (queue_tp_event ctx t c v) = tp_out ctx \<and>
   fingers (queue_tp_event ctx t c v) = fingers ctx \<and>
   slot (queue_tp_event ctx t c v) = slot ctx \<and>
   finger_count (queue_tp_event ctx t c v) = finger_count ctx"
  by (simp add: queue_tp_event_def)

lemma wf_emit_multitap: "wf_context ctx \<Longrightarrow> wf_context (emit_multitap ctx n v)"
  by (simp add: emit_multitap_queue wf_queue_tp_event)

lemma queued_emit_multitap:
  "wf_context ctx \<Longrightarrow>
     queued (emit_multitap ctx n v) =
       take 24 (queued ctx @ (if 1 \<le> n \<and> n \<le> 5 then [key_event (tool_code n) v] else []))"
  using length_queued_le [of ctx] length_queued [of ctx]
  by (auto simp: emit_multitap_queue queued_queue_tp_event key_event_def
      MAX_EVENTS_PER_REPORT_def wf_context_def)

lemma tools_step_frame:
  "tp_min_x (tools_step ctx) = tp_min_x ctx \<and>
   tp_max_x (tools_step ctx) = tp_max_x ctx \<and>
   tp_min_y (tools_step ctx) = tp_min_y ctx \<and>
   tp_max_y (tools_step ctx) = tp_max_y ctx \<and>
   pos_x (tools_step ctx) = pos_x ctx \<and>
   pos_y (tools_step ctx) = pos_y ctx \<and>
   sidekey (tools_step ctx) = sidekey ctx \<and>
   kbd (tools_step ctx) = kbd ctx \<and>
   keycode (tools_step ctx) = keycode ctx \<and>
   kbd_out (tools_step ctx) = kbd_out ctx \<and>
   tp_out (tools_step ctx) = tp_out ctx \<and>
   fingers (tools_step ctx) = fingers ctx \<and>
   slot (tools_step ctx) = slot ctx \<and>
   finger_count (tools_step ctx) = count_fingers (fingers ctx)"
  by (simp add: tools_step_def Let_def emit_multitap_queue queue_tp_event_frame)

lemma wf_finger_count_update:
  "wf_context (ctx\<lparr>finger_count := n\<rparr>) = wf_context ctx"
  by (simp add: wf_context_def)

lemma queued_finger_count_update:
  "queued (ctx\<lparr>finger_count := n\<rparr>) = queued ctx"
  by (simp add: queued_def)

lemma wf_tools_step: "wf_context ctx \<Longrightarrow> wf_context (tools_step ctx)"
  by (simp add: tools_step_def Let_def wf_finger_count_update wf_emit_multitap)

lemma queued_tools_step:
  assumes "wf_context ctx"
  shows "queued (tools_step ctx) =
           (if count_fingers (fingers ctx) \<noteq> finger_count ctx
            then take 24 (queued ctx @ tool_events (finger_count ctx) (count_fingers (fingers ctx)))
            else queued ctx)"
proof (cases "count_fingers (fingers ctx) \<noteq> finger_count ctx")
  case True
  let ?a = "finger_count ctx" and ?b = "count_fingers (fingers ctx)"
  let ?l = "if 1 \<le> ?a \<and> ?a \<le> 5 then [key_event (tool_code ?a) 0] else []"
  let ?p = "if 1 \<le> ?b \<and> ?b \<le> 5 then [key_event (tool_code ?b) 1] else []"
  have wf1: "wf_context (emit_multitap ctx ?a 0)"
    using assms by (rule wf_emit_multitap)
  have "queued (tools_step ctx) = queued (emit_multitap (emit_multitap ctx ?a 0) ?b 1)"
    using True by (simp add: tools_step_def Let_def queued_finger_count_update)
  also have "\<dots> = take 24 (queued (emit_multitap ctx ?a 0) @ ?p)"
    using wf1 by (rule queued_emit_multitap)
  also have "queued (emit_multitap ctx ?a 0) = take 24 (queued ctx @ ?l)"
    using assms by (rule queued_emit_multitap)
  also have "take 24 (take 24 (queued ctx @ ?l) @ ?p) = take 24 ((queued ctx @ ?l) @ ?p)"
    by (simp add: take_append min_def) 
  finally show ?thesis using True by (simp add: tool_events_def)
next
  case False
  then show ?thesis by (simp add: tools_step_def)
qed

lemma pick_position_append:
  "pick_position (xs @ ys) p = pick_position ys (pick_position xs p)"
  by (induction xs p rule: pick_position.induct) simp_all

lemma pick_position_other:
  "\<forall>e \<in> set ks. ev_type e \<noteq> EV_ABS \<Longrightarrow> pick_position ks p = p"
  by (induction ks p rule: pick_position.induct) simp_all

lemma tool_events_keys: "\<forall>e \<in> set (tool_events a b). ev_type e \<noteq> EV_ABS"
  by (auto simp: tool_events_def key_event_def event_codes)

lemma resolve_position_tools_step:
  assumes "wf_context ctx"
  shows "resolve_position (tools_step ctx) = resolve_position ctx"
proof (cases "count_fingers (fingers ctx) \<noteq> finger_count ctx")
  case True
  let ?ts = "tool_events (finger_count ctx) (count_fingers (fingers ctx))"
  have le: "length (queued ctx) \<le> 24" using assms by (rule length_queued_le)
  have q: "queued (tools_step ctx) = queued ctx @ take (24 - length (queued ctx)) ?ts"
    using True le by (simp add: queued_tools_step [OF assms])
  have "\<forall>e \<in> set (take (24 - length (queued ctx)) ?ts). ev_type e \<noteq> EV_ABS"
    using tool_events_keys [of "finger_count ctx" "count_fingers (fingers ctx)"]
    by (meson in_set_takeD)
  then show ?thesis
    by (simp add: resolve_position_def q pick_position_append pick_position_other
        tools_step_frame)
next
  case False
  then show ?thesis by (simp add: tools_step_def)
qed

lemma side_touches_tools_step: "side_touches (tools_step ctx) x y = side_touches ctx x y"
  by (simp add: side_touches_def tools_step_frame)

lemma release_step_frame:
  "input_events (release_step fc c) = input_events c \<and>
   input_event (release_step fc c) = input_event c \<and>
   tp_out (release_step fc c) = tp_out c \<and>
   kbd (release_step fc c) = kbd c \<and>
   keycode (release_step fc c) = keycode c \<and>
   fingers (release_step fc c) = fingers c \<and>
   slot (release_step fc c) = slot c \<and>
   finger_count (release_step fc c) = finger_count c \<and>
   pos_x (release_step fc c) = pos_x c \<and> pos_y (release_step fc c) = pos_y c \<and>
   tp_min_x (release_step fc c) = tp_min_x c \<and> tp_max_x (release_step fc c) = tp_max_x c \<and>
   tp_min_y (release_step fc c) = tp_min_y c \<and> tp_max_y (release_step fc c) = tp_max_y c"
  by (simp add: release_step_def Let_def emit_sidekey_event_def)

lemma sidekey_release_step:
  "sidekey (release_step fc c) = (if fc = 0 then 0 else sidekey c)"
  by (simp add: release_step_def Let_def emit_sidekey_event_def)

lemma kbd_out_release_step:
  "kbd_out (release_step fc c) =
     kbd_out c @
     (if fc = 0 \<and> sidekey c \<noteq> 0 \<and> keycode c > 0
      then [[key_event (word_of_int (keycode c)) 0, syn_report]] else [])"
  by (simp add: release_step_def Let_def emit_sidekey_event_def key_event_def syn_report_def)

lemma flush_tp_events_frame:
  "kbd_out (flush_tp_events c r) = kbd_out c \<and>
   sidekey (flush_tp_events c r) = sidekey c \<and>
   kbd (flush_tp_events c r) = kbd c \<and>
   keycode (flush_tp_events c r) = keycode c \<and>
   fingers (flush_tp_events c r) = fingers c \<and>
   slot (flush_tp_events c r) = slot c \<and>
   finger_count (flush_tp_events c r) = finger_count c \<and>
   pos_x (flush_tp_events c r) = pos_x c \<and> pos_y (flush_tp_events c r) = pos_y c \<and>
   tp_min_x (flush_tp_events c r) = tp_min_x c \<and> tp_max_x (flush_tp_events c r) = tp_max_x c \<and>
   tp_min_y (flush_tp_events c r) = tp_min_y c \<and> tp_max_y (flush_tp_events c r) = tp_max_y c \<and>
   input_event (flush_tp_events c r) = input_event c \<and>
   input_events (flush_tp_events c r) = 0"
  by (simp add: flush_tp_events_def Let_def)

text \<open>The keyboard writes and the sidekey state of one sync event.\<close>

lemma sync_sidekey_tools:
  assumes "is_sync ev" and "resolve_position (tools_step ctx) = (x, y)"
  shows "kbd_out (snd (handle_event ctx (Some ev))) =
           kbd_out ctx @
           (if x \<noteq> - 1 \<and> y \<noteq> - 1 \<and> word_of_int (side_touches ctx x y) \<noteq> sidekey ctx \<and>
               0 < kbd ctx
            then [[key_event (word_of_int (keycode ctx)) (side_touches ctx x y), syn_report]]
            else []) @
           (if count_fingers (fingers ctx) = 0 \<and>
               (if x \<noteq> - 1 \<and> y \<noteq> - 1 then side_touches ctx x y = 1 else sidekey ctx \<noteq> 0) \<and>
               0 < keycode ctx
            then [[key_event (word_of_int (keycode ctx)) 0, syn_report]] else [])"
    and "sidekey (snd (handle_event ctx (Some ev))) =
           (if count_fingers (fingers ctx) = 0 then 0
            else if x \<noteq> - 1 \<and> y \<noteq> - 1 then word_of_int (side_touches ctx x y)
            else sidekey ctx)"
proof -
  let ?c1 = "tools_step ctx"
  have r: "resolve_position ?c1 = (x, y)" by (rule assms(2))
  have k: "kbd_out (check_bounds ?c1) =
             kbd_out ctx @
             (if x \<noteq> - 1 \<and> y \<noteq> - 1 \<and> word_of_int (side_touches ctx x y) \<noteq> sidekey ctx \<and>
                 0 < kbd ctx
              then [[key_event (word_of_int (keycode ctx)) (side_touches ctx x y), syn_report]]
              else [])"
  proof (cases "x \<noteq> - 1 \<and> y \<noteq> - 1")
    case True
    then show ?thesis
      using kbd_out_check_bounds [OF r] by (simp add: tools_step_frame side_touches_tools_step)
  next
    case False
    then show ?thesis
      using check_bounds_unresolved [OF r] by (auto simp: tools_step_frame)
  qed
  have s: "sidekey (check_bounds ?c1) =
             (if x \<noteq> - 1 \<and> y \<noteq> - 1 then word_of_int (side_touches ctx x y) else sidekey ctx)"
  proof (cases "x \<noteq> - 1 \<and> y \<noteq> - 1")
    case True
    then show ?thesis
      using sidekey_check_bounds [OF r] by (simp add: side_touches_tools_step)
  next
    case False
    then show ?thesis
      using check_bounds_unresolved [OF r] by (auto simp: tools_step_frame)
  qed
  have s0: "(sidekey (check_bounds ?c1) \<noteq> 0) =
              (if x \<noteq> - 1 \<and> y \<noteq> - 1 then side_touches ctx x y = 1 else sidekey ctx \<noteq> 0)"
    using side_touches_cases [of ctx x y] by (auto simp: s)
  have kc: "keycode (check_bounds ?c1) = keycode ctx"
    by (simp add: check_bounds_frame tools_step_frame)
  show "kbd_out (snd (handle_event ctx (Some ev))) =
           kbd_out ctx @
           (if x \<noteq> - 1 \<and> y \<noteq> - 1 \<and> word_of_int (side_touches ctx x y) \<noteq> sidekey ctx \<and>
               0 < kbd ctx
            then [[key_event (word_of_int (keycode ctx)) (side_touches ctx x y), syn_report]]
            else []) @
           (if count_fingers (fingers ctx) = 0 \<and>
               (if x \<noteq> - 1 \<and> y \<noteq> - 1 then side_touches ctx x y = 1 else sidekey ctx \<noteq> 0) \<and>
               0 < keycode ctx
            then [[key_event (word_of_int (keycode ctx)) 0, syn_report]] else [])"
    unfolding handle_event_sync [OF assms(1)] snd_conv
    by (simp only: flush_tp_events_frame kbd_out_release_step k s0 kc append_assoc)
  show "sidekey (snd (handle_event ctx (Some ev))) =
           (if count_fingers (fingers ctx) = 0 then 0
            else if x \<noteq> - 1 \<and> y \<noteq> - 1 then word_of_int (side_touches ctx x y)
            else sidekey ctx)"
    unfolding handle_event_sync [OF assms(1)] snd_conv
    by (simp only: flush_tp_events_frame sidekey_release_step s)
qed

lemma sync_sidekey:
  assumes "is_sync ev" and "wf_context ctx" and "resolve_position ctx = (x, y)"
  shows "kbd_out (snd (handle_event ctx (Some ev))) =
           kbd_out ctx @
           (if x \<noteq> - 1 \<and> y \<noteq> - 1 \<and> word_of_int (side_touches ctx x y) \<noteq> sidekey ctx \<and>
               0 < kbd ctx
            then [[key_event (word_of_int (keycode ctx)) (side_touches ctx x y), syn_report]]
            else []) @
           (if count_fingers (fingers ctx) = 0 \<and>
               (if x \<noteq> - 1 \<and> y \<noteq> - 1 then side_touches ctx x y = 1 else sidekey ctx \<noteq> 0) \<and>
               0 < keycode ctx
            then [[key_event (word_of_int (keycode ctx)) 0, syn_report]] else [])"
    and "sidekey (snd (handle_event ctx (Some ev))) =
           (if count_fingers (fingers ctx) = 0 then 0
            else if x \<noteq> - 1 \<and> y \<noteq> - 1 then word_of_int (side_touches ctx x y)
            else sidekey ctx)"
proof -
  have r: "resolve_position (tools_step ctx) = (x, y)"
    using assms by (simp add: resolve_position_tools_step)
  show "kbd_out (snd (handle_event ctx (Some ev))) =
           kbd_out ctx @
           (if x \<noteq> - 1 \<and> y \<noteq> - 1 \<and> word_of_int (side_touches ctx x y) \<noteq> sidekey ctx \<and>
               0 < kbd ctx
            then [[key_event (word_of_int (keycode ctx)) (side_touches ctx x y), syn_report]]
            else []) @
           (if count_fingers (fingers ctx) = 0 \<and>
               (if x \<noteq> - 1 \<and> y \<noteq> - 1 then side_touches ctx x y = 1 else sidekey ctx \<noteq> 0) \<and>
               0 < keycode ctx
            then [[key_event (word_of_int (keycode ctx)) 0, syn_report]] else [])"
    by (rule sync_sidekey_tools(1) [OF assms(1) r])
  show "sidekey (snd (handle_event ctx (Some ev))) =
           (if count_fingers (fingers ctx) = 0 then 0
            else if x \<noteq> - 1 \<and> y \<noteq> - 1 then word_of_int (side_touches ctx x y)
            else sidekey ctx)"
    by (rule sync_sidekey_tools(2) [OF assms(1) r])
qed

section \<open>The slot table\<close>

lemma handle_event_other:
  "\<not> is_sync ev \<Longrightarrow>
     handle_event ctx (Some ev) =
       (0, queue_tp_event (slot_step ctx ev) (ev_type ev) (ev_code ev) (ev_value ev))"
proof -
  assume "\<not> is_sync ev"
  then have c: "\<not> (ev_type ev = EV_SYN \<and> ev_code ev = SYN_REPORT)"
    by (simp add: is_sync_def)
  show ?thesis
    unfolding handle_event_def option.case if_not_P [OF c]
    by (simp add: slot_step_def Let_def)
qed


lemma slot_step_frame:
  "tp_min_x (slot_step ctx ev) = tp_min_x ctx \<and>
   tp_max_x (slot_step ctx ev) = tp_max_x ctx \<and>
   tp_min_y (slot_step ctx ev) = tp_min_y ctx \<and>
   tp_max_y (slot_step ctx ev) = tp_max_y ctx \<and>
   pos_x (slot_step ctx ev) = pos_x ctx \<and>
   pos_y (slot_step ctx ev) = pos_y ctx \<and>
   sidekey (slot_step ctx ev) = sidekey ctx \<and>
   kbd (slot_step ctx ev) = kbd ctx \<and>
   keycode (slot_step ctx ev) = keycode ctx \<and>
   kbd_out (slot_step ctx ev) = kbd_out ctx \<and>
   tp_out (slot_step ctx ev) = tp_out ctx \<and>
   finger_count (slot_step ctx ev) = finger_count ctx \<and>
   input_event (slot_step ctx ev) = input_event ctx \<and>
   input_events (slot_step ctx ev) = input_events ctx"
  by (simp add: slot_step_def)

lemma wf_slot_step: "wf_context ctx \<Longrightarrow> wf_context (slot_step ctx ev)"
  by (simp add: slot_step_def wf_context_def)





lemma wf_check_bounds: "wf_context ctx \<Longrightarrow> wf_context (check_bounds ctx)"
  using check_bounds_frame [of ctx] by (simp add: wf_context_def)

lemma wf_release_step: "wf_context ctx \<Longrightarrow> wf_context (release_step fc ctx)"
  by (simp add: wf_context_def release_step_frame)

lemma wf_flush_tp_events: "wf_context ctx \<Longrightarrow> wf_context (flush_tp_events ctx r)"
  by (simp add: wf_context_def flush_tp_events_frame MAX_EVENTS_PER_REPORT_def)

lemma wf_handle_event: "wf_context ctx \<Longrightarrow> wf_context (snd (handle_event ctx (Some ev)))"
  by (cases "is_sync ev")
    (simp_all add: handle_event_sync handle_event_other wf_flush_tp_events wf_release_step
      wf_check_bounds wf_tools_step wf_queue_tp_event wf_slot_step)

lemma feed_Nil [simp]: "feed ctx [] = ctx"
  by (simp add: feed_def)

lemma feed_Cons [simp]: "feed ctx (ev # evs) = feed (snd (handle_event ctx (Some ev))) evs"
  by (simp add: feed_def)

lemma wf_feed: "wf_context ctx \<Longrightarrow> wf_context (feed ctx evs)"
  by (induction evs arbitrary: ctx) (simp_all add: wf_handle_event)







section \<open>Report batching\<close>




section \<open>The sidekey\<close>

subsection \<open>Release when the last finger lifts\<close>

lemma is_sync_syn_report: "is_sync syn_report"
  by (simp add: is_sync_def syn_report_def)

lemma count_fingers_empty: "count_fingers (replicate MAX_FINGERS (- 1)) = 0"
  by (simp add: count_fingers_filter)

lemma kbd_ctx_fields:
  "wf_context kbd_ctx \<and> queued kbd_ctx = [] \<and>
   tp_min_x kbd_ctx = 330 \<and> tp_max_x kbd_ctx = 660 \<and>
   tp_min_y kbd_ctx = 670 \<and> tp_max_y kbd_ctx = 1000 \<and>
   input_events kbd_ctx = 0 \<and> pos_x kbd_ctx = 0 \<and> pos_y kbd_ctx = 0 \<and>
   sidekey kbd_ctx = 0 \<and> kbd kbd_ctx = 5 \<and> keycode kbd_ctx = 85 \<and>
   finger_count kbd_ctx = 0 \<and> slot kbd_ctx = 0 \<and>
   fingers kbd_ctx = replicate MAX_FINGERS (- 1) \<and>
   tp_out kbd_ctx = [] \<and> kbd_out kbd_ctx = []"
  using wf_region_ctx
  by (simp add: kbd_ctx_def wf_context_def queued_def region_ctx_fields)

text \<open>
  Claim C4, as the code has it. The claim promises the release event on every report
  whose finger count is 0 while the sidekey is active. Both writes to the keyboard
  are guarded: the one of \<open>check_bounds\<close> by \<open>kbd > 0\<close>, the forced one by
  \<open>keycode > 0\<close>, and without \<open>-k\<close> both fields are \<open>-1\<close>. With the keyboard configured
  (\<open>keycode > 0\<close> and \<open>kbd > 0\<close>), a sync event that finds no finger down while the
  sidekey state is 1 writes exactly one key event of value 0, followed by its sync
  marker, and leaves the state at 0. That holds whatever the bounds check decides:
  if the position is still a side touch the check writes nothing and the forced
  release writes the event; if it is not, the check writes the event and the forced
  release has nothing left to do.
\<close>

theorem forced_sidekey_release:
  assumes wf: "wf_context ctx" and sy: "is_sync ev"
    and fc: "count_fingers (fingers ctx) = 0" and sk: "sidekey ctx = 1"
    and kc: "0 < keycode ctx" and kb: "0 < kbd ctx"
  shows "kbd_out (snd (handle_event ctx (Some ev))) =
           kbd_out ctx @ [[key_event (word_of_int (keycode ctx)) 0, syn_report]] \<and>
         sidekey (snd (handle_event ctx (Some ev))) = 0"
proof -
  obtain x y where r: "resolve_position (tools_step ctx) = (x, y)"
    by (cases "resolve_position (tools_step ctx)") auto
  have st: "side_touches ctx x y = 0 \<or> side_touches ctx x y = 1"
    by (rule side_touches_cases)
  have k: "kbd_out (snd (handle_event ctx (Some ev))) =
             kbd_out ctx @ [[key_event (word_of_int (keycode ctx)) 0, syn_report]]"
    using st fc sk kc kb unfolding sync_sidekey_tools(1) [OF sy r] by auto
  have s: "sidekey (snd (handle_event ctx (Some ev))) = 0"
    using fc unfolding sync_sidekey_tools(2) [OF sy r] by simp
  from k s show ?thesis by simp
qed

text \<open>
  With the keyboard open, a finger comes down beside the trackpad and lifts. At the
  sync event of the lift no finger is down, the sidekey is active and the last known
  position is still the side touch \<open>(100, 800)\<close>: the release follows the press of
  the first report.
\<close>

theorem forced_sidekey_release_witness:
  "wf_context (side_lift_ctx kbd_ctx) \<and>
   is_sync syn_report \<and> count_fingers (fingers (side_lift_ctx kbd_ctx)) = 0 \<and>
   sidekey (side_lift_ctx kbd_ctx) = 1 \<and> 0 < keycode (side_lift_ctx kbd_ctx) \<and>
   0 < kbd (side_lift_ctx kbd_ctx) \<and>
   resolve_position (side_lift_ctx kbd_ctx) = (100, 800) \<and>
   side_touches (side_lift_ctx kbd_ctx) 100 800 = 1 \<and>
   kbd_out (side_lift_ctx kbd_ctx) = [[key_event 85 1, syn_report]] \<and>
   kbd_out (snd (handle_event (side_lift_ctx kbd_ctx) (Some syn_report))) =
     [[key_event 85 1, syn_report], [key_event 85 0, syn_report]] \<and>
   sidekey (snd (handle_event (side_lift_ctx kbd_ctx) (Some syn_report))) = 0"
proof -
  have h0: "wf_context (side_lift_ctx kbd_ctx)"
    unfolding side_lift_ctx_def report_def using kbd_ctx_fields
    by (intro wf_feed wf_handle_event) simp
  have h1: "is_sync syn_report" by (rule is_sync_syn_report)
  have h2: "count_fingers (fingers (side_lift_ctx kbd_ctx)) = 0" by code_simp
  have h3: "sidekey (side_lift_ctx kbd_ctx) = 1" by code_simp
  have h4: "0 < keycode (side_lift_ctx kbd_ctx)" by code_simp
  have h5: "0 < kbd (side_lift_ctx kbd_ctx)" by code_simp
  have r: "resolve_position (side_lift_ctx kbd_ctx) = (100, 800)" by code_simp
  have c: "side_touches (side_lift_ctx kbd_ctx) 100 800 = 1" by code_simp
  have k: "kbd_out (side_lift_ctx kbd_ctx) = [[key_event 85 1, syn_report]]" by code_simp
  have kc: "keycode (side_lift_ctx kbd_ctx) = 85" by code_simp
  show ?thesis
    using h0 h1 h2 h3 h4 h5 r c k forced_sidekey_release [OF h0 h1 h2 h3 h4 h5]
    by (simp add: kc)
qed

text \<open>
  Where the claim fails: the same touch and lift without a keyboard. At the sync
  event of the lift no finger is down and the sidekey is active; the state goes back
  to 0 and nothing is written.
\<close>

theorem forced_sidekey_release_counterexample:
  "is_sync syn_report \<and> count_fingers (fingers (side_lift_ctx region_ctx)) = 0 \<and>
   sidekey (side_lift_ctx region_ctx) = 1 \<and>
   keycode (side_lift_ctx region_ctx) = - 1 \<and> kbd (side_lift_ctx region_ctx) = - 1 \<and>
   kbd_out (side_lift_ctx region_ctx) = [] \<and>
   kbd_out (snd (handle_event (side_lift_ctx region_ctx) (Some syn_report))) = [] \<and>
   sidekey (snd (handle_event (side_lift_ctx region_ctx) (Some syn_report))) = 0"
  by code_simp

section \<open>The sidekey over runs of reports\<close>

lemma other_frame:
  assumes "\<not> is_sync ev"
  shows "kbd_out (snd (handle_event ctx (Some ev))) = kbd_out ctx \<and>
         sidekey (snd (handle_event ctx (Some ev))) = sidekey ctx \<and>
         kbd (snd (handle_event ctx (Some ev))) = kbd ctx \<and>
         keycode (snd (handle_event ctx (Some ev))) = keycode ctx \<and>
         tp_out (snd (handle_event ctx (Some ev))) = tp_out ctx \<and>
         finger_count (snd (handle_event ctx (Some ev))) = finger_count ctx \<and>
         pos_x (snd (handle_event ctx (Some ev))) = pos_x ctx \<and>
         pos_y (snd (handle_event ctx (Some ev))) = pos_y ctx \<and>
         tp_min_x (snd (handle_event ctx (Some ev))) = tp_min_x ctx \<and>
         tp_max_x (snd (handle_event ctx (Some ev))) = tp_max_x ctx \<and>
         tp_min_y (snd (handle_event ctx (Some ev))) = tp_min_y ctx \<and>
         tp_max_y (snd (handle_event ctx (Some ev))) = tp_max_y ctx"
  by (simp add: handle_event_other [OF assms] queue_tp_event_frame slot_step_frame)

lemma feed_frame:
  assumes "list_all (\<lambda>e. \<not> is_sync e) evs"
  shows "kbd_out (feed ctx evs) = kbd_out ctx \<and>
         sidekey (feed ctx evs) = sidekey ctx \<and>
         kbd (feed ctx evs) = kbd ctx \<and>
         keycode (feed ctx evs) = keycode ctx \<and>
         tp_out (feed ctx evs) = tp_out ctx \<and>
         finger_count (feed ctx evs) = finger_count ctx \<and>
         pos_x (feed ctx evs) = pos_x ctx \<and>
         pos_y (feed ctx evs) = pos_y ctx \<and>
         tp_min_x (feed ctx evs) = tp_min_x ctx \<and>
         tp_max_x (feed ctx evs) = tp_max_x ctx \<and>
         tp_min_y (feed ctx evs) = tp_min_y ctx \<and>
         tp_max_y (feed ctx evs) = tp_max_y ctx"
  using assms
proof (induction evs arbitrary: ctx)
  case Nil
  then show ?case by simp
next
  case (Cons e es)
  then have n: "\<not> is_sync e" and r: "list_all (\<lambda>e. \<not> is_sync e) es" by simp_all
  show ?case
    using other_frame [OF n, of ctx] Cons.IH [OF r, of "snd (handle_event ctx (Some e))"]
    by simp
qed

lemma side_touches_cong:
  "tp_min_x c = tp_min_x ctx \<Longrightarrow> tp_max_x c = tp_max_x ctx \<Longrightarrow>
   tp_min_y c = tp_min_y ctx \<Longrightarrow> tp_max_y c = tp_max_y ctx \<Longrightarrow>
   side_touches c x y = side_touches ctx x y"
  by (simp add: side_touches_def)

lemma sync_frame:
  assumes "is_sync ev"
  shows "kbd (snd (handle_event ctx (Some ev))) = kbd ctx \<and>
         keycode (snd (handle_event ctx (Some ev))) = keycode ctx \<and>
         fingers (snd (handle_event ctx (Some ev))) = fingers ctx \<and>
         slot (snd (handle_event ctx (Some ev))) = slot ctx \<and>
         tp_min_x (snd (handle_event ctx (Some ev))) = tp_min_x ctx \<and>
         tp_max_x (snd (handle_event ctx (Some ev))) = tp_max_x ctx \<and>
         tp_min_y (snd (handle_event ctx (Some ev))) = tp_min_y ctx \<and>
         tp_max_y (snd (handle_event ctx (Some ev))) = tp_max_y ctx \<and>
         finger_count (snd (handle_event ctx (Some ev))) = count_fingers (fingers ctx) \<and>
         input_events (snd (handle_event ctx (Some ev))) = 0"
  by (simp add: handle_event_sync [OF assms] flush_tp_events_frame release_step_frame
      check_bounds_frame tools_step_frame)

lemma word_of_side_touch_neq_0:
  "s = 0 \<or> s = 1 \<Longrightarrow> ((word_of_int s :: u32) \<noteq> 0) = (s = 1)"
  by auto

lemma report_steady:
  assumes wf: "wf_context ctx" and ns: "list_all (\<lambda>e. \<not> is_sync e) r"
    and rp: "resolve_position (feed ctx r) = (x, y)" and x: "x \<noteq> - 1" and y: "y \<noteq> - 1"
    and st: "side_touches (feed ctx r) x y = s"
    and nf: "\<not> (count_fingers (fingers (feed ctx r)) = 0 \<and> s = 1)"
  shows "kbd_out (report ctx r) =
           kbd_out ctx @
           (if word_of_int s \<noteq> sidekey ctx \<and> 0 < kbd ctx
            then [[key_event (word_of_int (keycode ctx)) s, syn_report]] else []) \<and>
         sidekey (report ctx r) = word_of_int s \<and>
         kbd (report ctx r) = kbd ctx \<and> keycode (report ctx r) = keycode ctx \<and>
         wf_context (report ctx r)"
proof -
  let ?c = "feed ctx r"
  have wfc: "wf_context ?c" using wf by (rule wf_feed)
  have sy: "is_sync syn_report" by (rule is_sync_syn_report)
  have s01: "s = 0 \<or> s = 1" using st side_touches_cases [of ?c x y] by simp
  have k: "kbd_out (report ctx r) =
           kbd_out ctx @
           (if word_of_int s \<noteq> sidekey ctx \<and> 0 < kbd ctx
            then [[key_event (word_of_int (keycode ctx)) s, syn_report]] else [])"
    unfolding report_def sync_sidekey(1) [OF sy wfc rp]
    using x y st nf feed_frame [OF ns, of ctx] by auto
  have s: "sidekey (report ctx r) = word_of_int s"
    unfolding report_def sync_sidekey(2) [OF sy wfc rp]
    using x y st nf s01 by auto
  have f: "kbd (report ctx r) = kbd ctx \<and> keycode (report ctx r) = keycode ctx"
    unfolding report_def using sync_frame [OF sy, of ?c] feed_frame [OF ns, of ctx] by simp
  have w: "wf_context (report ctx r)"
    unfolding report_def using wfc by (rule wf_handle_event)
  from k s f w show ?thesis by simp
qed

lemma steady_run_ConsD:
  assumes "steady_run s ctx (r # rs)"
  shows "\<exists>x y. list_all (\<lambda>e. \<not> is_sync e) r \<and> resolve_position (feed ctx r) = (x, y) \<and>
           x \<noteq> - 1 \<and> y \<noteq> - 1 \<and> side_touches (feed ctx r) x y = s \<and>
           \<not> (count_fingers (fingers (feed ctx r)) = 0 \<and> s = 1) \<and>
           steady_run s (report ctx r) rs"
  using assms by (auto simp: Let_def split: prod.splits)

lemma steady_run_quiet:
  "wf_context ctx \<Longrightarrow> steady_run s ctx rs \<Longrightarrow> sidekey ctx = word_of_int s \<Longrightarrow>
     kbd_out (reports ctx rs) = kbd_out ctx \<and> sidekey (reports ctx rs) = word_of_int s"
proof (induction rs arbitrary: ctx)
  case Nil
  then show ?case by simp
next
  case (Cons r rs)
  obtain x y where h: "list_all (\<lambda>e. \<not> is_sync e) r" "resolve_position (feed ctx r) = (x, y)"
      "x \<noteq> - 1" "y \<noteq> - 1" "side_touches (feed ctx r) x y = s"
      "\<not> (count_fingers (fingers (feed ctx r)) = 0 \<and> s = 1)"
      "steady_run s (report ctx r) rs"
    using steady_run_ConsD [OF Cons.prems(2)] by blast
  note st = report_steady [OF Cons.prems(1) h(1-6)]
  have "kbd_out (reports (report ctx r) rs) = kbd_out (report ctx r) \<and>
        sidekey (reports (report ctx r) rs) = word_of_int s"
    using st h(7) by (intro Cons.IH) simp_all
  then show ?case using st Cons.prems(3) by simp
qed

text \<open>
  Claim C8, as the code has it. The claim allows at most one key event over a run of
  reports with one classification, and none on a report whose classification equals
  the stored state. The release of the sidekey on a finger count of zero does not
  look at the classification: on such a report it writes a release although the
  position is still a side touch, and it resets the stored state, so that the
  bounds check of the next report writes a press again. Over a run of reports that
  each resolve a position of classification \<open>s\<close> and on none of which that release
  fires (no report of the run has a finger count of 0 together with a side touch),
  the keyboard receives at most one key event: none if \<open>s\<close> is the stored state at
  the start of the run or no keyboard is open, otherwise one event of value \<open>s\<close>,
  written by the first report of the run; the stored state is \<open>s\<close> afterwards.
\<close>

theorem sidekey_steady_run:
  assumes "wf_context ctx" and "steady_run s ctx rs"
  shows "kbd_out (reports ctx rs) =
           kbd_out ctx @
           (if rs \<noteq> [] \<and> word_of_int s \<noteq> sidekey ctx \<and> 0 < kbd ctx
            then [[key_event (word_of_int (keycode ctx)) s, syn_report]] else []) \<and>
         (rs \<noteq> [] \<longrightarrow>
            kbd_out (reports ctx rs) = kbd_out (report ctx (hd rs)) \<and>
            sidekey (reports ctx rs) = word_of_int s)"
proof (cases rs)
  case Nil
  then show ?thesis by simp
next
  case (Cons r rs')
  obtain x y where h: "list_all (\<lambda>e. \<not> is_sync e) r" "resolve_position (feed ctx r) = (x, y)"
      "x \<noteq> - 1" "y \<noteq> - 1" "side_touches (feed ctx r) x y = s"
      "\<not> (count_fingers (fingers (feed ctx r)) = 0 \<and> s = 1)"
      "steady_run s (report ctx r) rs'"
    using steady_run_ConsD assms(2) Cons by blast
  note st = report_steady [OF assms(1) h(1-6)]
  have q: "kbd_out (reports (report ctx r) rs') = kbd_out (report ctx r) \<and>
           sidekey (reports (report ctx r) rs') = word_of_int s"
    using st h(7) by (intro steady_run_quiet) simp_all
  show ?thesis using st q Cons by simp
qed

text \<open>
  Two runs from the context with the keyboard open and the sidekey inactive:
  \<open>side_run\<close>, classified 1 throughout, writes one press, in its first report;
  \<open>inside_run\<close>, classified 0 throughout, writes nothing.
\<close>

theorem sidekey_steady_run_witness:
  "wf_context kbd_ctx \<and> steady_run 1 kbd_ctx side_run \<and> steady_run 0 kbd_ctx inside_run \<and>
   sidekey kbd_ctx = 0 \<and>
   kbd_out (reports kbd_ctx side_run) = [[key_event 85 1, syn_report]] \<and>
   kbd_out (report kbd_ctx (hd side_run)) = [[key_event 85 1, syn_report]] \<and>
   sidekey (reports kbd_ctx side_run) = 1 \<and>
   kbd_out (reports kbd_ctx inside_run) = [] \<and>
   sidekey (reports kbd_ctx inside_run) = 0"
proof -
  have w: "wf_context kbd_ctx" using kbd_ctx_fields by simp
  have s1: "steady_run 1 kbd_ctx side_run" by code_simp
  have s0: "steady_run 0 kbd_ctx inside_run" by code_simp
  have n: "side_run \<noteq> [] \<and> inside_run \<noteq> []"
    by (simp add: side_run_def inside_run_def)
  show ?thesis
    using w s1 s0 n kbd_ctx_fields
      sidekey_steady_run [OF w s1] sidekey_steady_run [OF w s0]
    by auto
qed

text \<open>
  Where the claim fails: \<open>side_lift_run\<close> with the keyboard open. Each of its three
  reports resolves the position \<open>(100, 800)\<close>, a side touch. The first writes the
  press; the second finds no finger down and writes the release although the
  classification has not changed; the third writes a press and a release.
\<close>

theorem sidekey_steady_run_counterexample:
  "resolve_position (feed kbd_ctx (side_lift_run ! 0)) = (100, 800) \<and>
   resolve_position (feed (reports kbd_ctx (take 1 side_lift_run)) (side_lift_run ! 1)) =
     (100, 800) \<and>
   resolve_position (feed (reports kbd_ctx (take 2 side_lift_run)) (side_lift_run ! 2)) =
     (100, 800) \<and>
   side_touches kbd_ctx 100 800 = 1 \<and>
   kbd_out (reports kbd_ctx (take 1 side_lift_run)) = [[key_event 85 1, syn_report]] \<and>
   kbd_out (reports kbd_ctx (take 2 side_lift_run)) =
     [[key_event 85 1, syn_report], [key_event 85 0, syn_report]] \<and>
   kbd_out (reports kbd_ctx side_lift_run) =
     [[key_event 85 1, syn_report], [key_event 85 0, syn_report],
      [key_event 85 1, syn_report], [key_event 85 0, syn_report]]"
  by code_simp

section \<open>Finger count and tool events\<close>

subsection \<open>Tool events of a report\<close>

lemma replace_position_other: "ev_type e \<noteq> EV_ABS \<Longrightarrow> replace_position x y e = e"
  by (simp add: replace_position_def)

lemma map_replace_position_tool_events:
  "map (replace_position x y) (tool_events a b) = tool_events a b"
  using tool_events_keys [of a b] by (simp add: map_idI replace_position_other)

lemma length_tool_events: "length (tool_events a b) \<le> 2"
  by (simp add: tool_events_def)

text \<open>
  Claim C2, as the code has it. The claim puts the lift and the press before every
  position event of the report in the flushed output. The tool events are queued
  when the sync event arrives, behind everything the report has queued by then, so
  they are the last events of the batch, after the position events. When the
  recomputed count \<open>b\<close> differs from the recorded count \<open>a\<close> and the pending report has
  room for two more events, the batch written for the report is the pending events
  (their coordinate fields replaced by the bounds check when a position is
  resolved), then the lift (value 0) of the tool code of \<open>a\<close> if \<open>1 \<le> a \<le> 5\<close>, then the
  press (value 1) of the tool code of \<open>b\<close> if \<open>1 \<le> b \<le> 5\<close>; the sync event follows in a
  write of its own, and \<open>b\<close> becomes the recorded count. The codes are those of
  \<open>tool_code\<close>: finger, doubletap, tripletap, quadtap, quinttap for 1 to 5. A count
  outside 1 to 5 contributes no tool event.
\<close>

theorem tool_events_on_count_change:
  assumes "wf_context ctx" and "is_sync ev"
    and "count_fingers (fingers ctx) \<noteq> finger_count ctx"
    and "input_events ctx \<le> 22"
    and "resolve_position ctx = (x, y)"
  shows "tp_out (snd (handle_event ctx (Some ev))) =
           tp_out ctx @
           [(if x = - 1 \<or> y = - 1 then queued ctx
             else map (replace_position (clamp_adjust (tp_min_x ctx) (tp_max_x ctx) x)
                                         (clamp_adjust (tp_min_y ctx) (tp_max_y ctx) y))
                    (queued ctx)) @
            tool_events (finger_count ctx) (count_fingers (fingers ctx)),
            [ev]] \<and>
         finger_count (snd (handle_event ctx (Some ev))) = count_fingers (fingers ctx)"
proof -
  let ?a = "finger_count ctx" and ?b = "count_fingers (fingers ctx)"
  let ?c1 = "tools_step ctx"
  let ?c2 = "check_bounds ?c1"
  let ?c3 = "release_step ?b ?c2"
  have len: "length (queued ctx) \<le> 22"
    using assms(1,4) by (simp add: length_queued)
  have q1: "queued ?c1 = queued ctx @ tool_events ?a ?b"
    using assms(3) len length_tool_events [of ?a ?b]
    by (simp add: queued_tools_step [OF assms(1)])
  have r1: "resolve_position ?c1 = (x, y)"
    using assms(1,5) by (simp add: resolve_position_tools_step)
  have q2: "queued ?c2 =
              (if x = - 1 \<or> y = - 1 then queued ctx
               else map (replace_position (clamp_adjust (tp_min_x ctx) (tp_max_x ctx) x)
                                           (clamp_adjust (tp_min_y ctx) (tp_max_y ctx) y))
                      (queued ctx)) @ tool_events ?a ?b"
  proof (cases "x = - 1 \<or> y = - 1")
    case True
    then show ?thesis
      using check_bounds_unresolved [OF r1] by (simp add: q1)
  next
    case False
    then have "x \<noteq> - 1" "y \<noteq> - 1" by simp_all
    then show ?thesis
      using queued_check_bounds [OF r1]
      by (simp add: q1 tools_step_frame map_replace_position_tool_events)
  qed
  have q3: "queued ?c3 = queued ?c2"
    by (simp add: queued_def release_step_frame)
  have t3: "tp_out ?c3 = tp_out ctx"
    by (simp add: release_step_frame check_bounds_frame tools_step_frame)
  have out: "tp_out (snd (handle_event ctx (Some ev))) = tp_out ctx @ [queued ?c2, [ev]]"
    by (simp add: handle_event_sync [OF assms(2)] flush_tp_events_out q3 t3)
  have fc: "finger_count (snd (handle_event ctx (Some ev))) = ?b"
    using sync_frame [OF assms(2), of ctx] by simp
  show ?thesis
    unfolding out q2 fc by simp
qed

text \<open>
  Two fingers down, one lifted: the report of the lift is written as the tracking-id
  event, the lift of the doubletap tool, the press of the finger tool.
\<close>

theorem tool_events_on_count_change_witness:
  "wf_context two_finger_lift_ctx \<and> is_sync syn_report \<and>
   finger_count two_finger_lift_ctx = 2 \<and>
   count_fingers (fingers two_finger_lift_ctx) = 1 \<and>
   input_events two_finger_lift_ctx \<le> 22 \<and>
   resolve_position two_finger_lift_ctx = (520, 820) \<and>
   queued two_finger_lift_ctx = [abs_event ABS_MT_TRACKING_ID (- 1)] \<and>
   tp_out (snd (handle_event two_finger_lift_ctx (Some syn_report))) =
     tp_out two_finger_lift_ctx @
     [[abs_event ABS_MT_TRACKING_ID (- 1),
       key_event BTN_TOOL_DOUBLETAP 0, key_event BTN_TOOL_FINGER 1],
      [syn_report]]"
proof -
  have w: "wf_context two_finger_lift_ctx"
    unfolding two_finger_lift_ctx_def report_def
    by (intro wf_feed wf_handle_event wf_region_ctx)
  have s: "is_sync syn_report" by (rule is_sync_syn_report)
  have a: "finger_count two_finger_lift_ctx = 2" by code_simp
  have b: "count_fingers (fingers two_finger_lift_ctx) = 1" by code_simp
  have n: "count_fingers (fingers two_finger_lift_ctx) \<noteq> finger_count two_finger_lift_ctx"
    using a b by simp
  have i: "input_events two_finger_lift_ctx \<le> 22" by code_simp
  have r: "resolve_position two_finger_lift_ctx = (520, 820)" by code_simp
  have q: "queued two_finger_lift_ctx = [abs_event ABS_MT_TRACKING_ID (- 1)]" by code_simp
  have rp: "replace_position cx cy (abs_event ABS_MT_TRACKING_ID (- 1)) =
              abs_event ABS_MT_TRACKING_ID (- 1)" for cx cy
    by (simp add: replace_position_def abs_event_def event_codes)
  have te: "tool_events 2 1 = [key_event BTN_TOOL_DOUBLETAP 0, key_event BTN_TOOL_FINGER 1]"
    by (simp add: tool_events_def tool_code_def)
  show ?thesis
    using w s a b i r q tool_events_on_count_change [OF w s n i r]
    by (simp add: rp te)
qed

text \<open>
  Where the claim fails: the first finger comes down. The count changes from 0 to 1
  and the press of the finger tool is the last event of the batch, behind both
  position events of the report.
\<close>

theorem tool_events_on_count_change_counterexample:
  "finger_count one_finger_ctx = 0 \<and> count_fingers (fingers one_finger_ctx) = 1 \<and>
   queued one_finger_ctx =
     [abs_event ABS_MT_TRACKING_ID 7, abs_event ABS_MT_POSITION_X 500,
      abs_event ABS_MT_POSITION_Y 800] \<and>
   tp_out (snd (handle_event one_finger_ctx (Some syn_report))) =
     [[abs_event ABS_MT_TRACKING_ID 7, abs_event ABS_MT_POSITION_X 170,
       abs_event ABS_MT_POSITION_Y 130, key_event BTN_TOOL_FINGER 1],
      [syn_report]]"
  by code_simp

subsection \<open>The recomputed finger count\<close>

text \<open>
  Claim C1. The claim has the recomputed finger count equal the number of slots whose
  tracking ID is non-negative, 0 included. The counting loop tests
  \<open>fingers[i] > 0\<close>: a slot holding tracking ID 0 is not counted. With the first
  finger down under tracking ID 0 one slot is occupied, the recomputed count is 0
  and the report carries no press of the finger tool; under tracking ID 7 the same
  touch counts as 1.
\<close>

theorem finger_count_skips_tracking_id_zero:
  "fingers zero_id_ctx = [0, - 1, - 1, - 1, - 1, - 1, - 1, - 1, - 1, - 1] \<and>
   occupied_slots (fingers zero_id_ctx) = 1 \<and>
   count_fingers (fingers zero_id_ctx) = 0 \<and>
   finger_count (snd (handle_event zero_id_ctx (Some syn_report))) = 0 \<and>
   tp_out (snd (handle_event zero_id_ctx (Some syn_report))) =
     [[abs_event ABS_MT_TRACKING_ID 0, abs_event ABS_MT_POSITION_X 170,
       abs_event ABS_MT_POSITION_Y 130],
      [syn_report]] \<and>
   fingers one_finger_ctx = [7, - 1, - 1, - 1, - 1, - 1, - 1, - 1, - 1, - 1] \<and>
   occupied_slots (fingers one_finger_ctx) = 1 \<and>
   finger_count (snd (handle_event one_finger_ctx (Some syn_report))) = 1"
  by code_simp

text \<open>
  In general the recomputed count falls short of the occupied slots by the number of
  slots that hold tracking ID 0.
\<close>

lemma count_fingers_occupied:
  assumes "length fs = MAX_FINGERS"
  shows "count_fingers fs = occupied_slots fs - int (length (filter (\<lambda>t. t = 0) fs))"
proof -
  have "length (filter (\<lambda>t. 0 \<le> t) fs) =
        length (filter (\<lambda>t. 0 < t) fs) + length (filter (\<lambda>t. t = 0) fs)" for fs :: "int list"
    by (induction fs) auto
  then show ?thesis
    using assms by (simp add: count_fingers_filter occupied_slots_def)
qed

end
